theory Spec2Isabelle
  imports Main "HOL-Library.Multiset"
begin

section \<open>Text/Range utility: \<open>changeSourceCode\<close> (tools/libs/ts.js, tools/lib/ts.js)\<close>

text \<open>
  A text of the program is a \<open>string\<close> here, one character for each code unit; the
  functions that look at single characters (letters, white space) are modelled for ASCII text.

  A replacement is the JavaScript triple \<open>[start, end, text]\<close>.  Offsets are JavaScript
  numbers holding integers; \<open>String.prototype.substring\<close> clamps each bound to
  \<open>[0, length]\<close> and swaps the bounds when the first exceeds the second.
\<close>

type_synonym replacement = "int \<times> int \<times> string"

definition substring :: "string \<Rightarrow> int \<Rightarrow> int \<Rightarrow> string" where
  "substring s a b =
     (let n = int (length s);
          a' = max 0 (min a n);
          b' = max 0 (min b n);
          lo = min a' b';
          hi = max a' b'
      in take (nat (hi - lo)) (drop (nat lo) s))"

definition substringFrom :: "string \<Rightarrow> int \<Rightarrow> string" where
  "substringFrom s a = substring s a (int (length s))"

text \<open>The body of the \<open>for\<close> loop: one replacement applied to the current text.\<close>

definition applyReplacement :: "string \<Rightarrow> replacement \<Rightarrow> string" where
  "applyReplacement sourceCode replacement =
     (case replacement of (b, e, t) \<Rightarrow>
        substring sourceCode 0 b @ t @ substringFrom sourceCode e)"

text \<open>
  \<open>replacements.sort((a, b) => b[0] - a[0])\<close>: a stable sort by descending start offset.
\<close>

definition sortReplacements :: "replacement list \<Rightarrow> replacement list" where
  "sortReplacements rs = sort_key (\<lambda>r. - fst r) rs"

text \<open>
  \<open>changeSourceCode\<close> returns the changed text.  \<open>Array.prototype.sort\<close> sorts the array
  object it is called on, so the state of the caller's \<open>replacements\<close> array after the call is
  part of the result: the second component.  \<open>None\<close> is an absent (\<open>undefined\<close>) argument.
\<close>

definition changeSourceCode ::
  "string \<Rightarrow> replacement list option \<Rightarrow> string \<times> replacement list option" where
  "changeSourceCode sourceCode replacements =
     (case replacements of
        None \<Rightarrow> (sourceCode, None)
      | Some rs \<Rightarrow>
          if rs = [] then (sourceCode, Some rs)
          else (let sorted = sortReplacements rs
                in (foldl applyReplacement sourceCode sorted, Some sorted)))"



section \<open>The information model (tools/libs/ts.js)\<close>

text \<open>
  The engine's records are JavaScript objects discriminated by their \<open>kind\<close> field.  The
  functions below read a field of whatever record they are given (\<open>info.name\<close>,
  \<open>info.object\<close>, \<open>property.inherited = true\<close>), so a record is modelled as the object it is:
  one constructor carrying the fields the resolver and the inheritance flattener read or write,
  an absent field being \<open>None\<close> (for \<open>inherited\<close>: \<open>False\<close>; for the lists: empty).  The
  fields \<open>flags\<close>, \<open>meta\<close>, \<open>node\<close>, \<open>type\<close>, \<open>value\<close>, \<open>generics\<close>, \<open>parameters\<close>,
  \<open>return\<close> and \<open>implements\<close> are read by none of these functions and are left out.
  The selectors \<open>imports'\<close> and \<open>from'\<close> stand for the fields \<open>imports\<close> and \<open>from\<close>.
  The \<open>imports\<close> object is the list of its entries in insertion order, which is the order
  \<open>for (const item in imports)\<close> visits them in; an entry is (key, value).
\<close>

datatype kind = Class | Deconstruct | Doclet | Export | Function | Import | Interface
  | Object | Property | Variable

datatype extendsValue = ExtendsString string | ExtendsArray "string list"

datatype info = Info
  (kind: kind)
  (name: "string option")
  (extends: "extendsValue option")
  (properties: "info list")
  (imports': "(string \<times> string) list option")
  (from': string)
  (object: "info option")
  (inherited: bool)
  (doclet: "info option")
  (tags: "(string \<times> string list) list")

record sourceInfo =
  path :: string
  code :: "info list"

text \<open>\<open>ResolvedInfo\<close>: the fields \<open>path\<close>, \<open>resolvedInfo\<close>, \<open>resolvedPath\<close> and \<open>type\<close>.\<close>

datatype resolved = Resolved
  (r_path: string)
  (r_resolvedInfo: info)
  (r_resolvedPath: string)
  (r_type: string)

section \<open>The collaborators of the engine\<close>

text \<open>
  The engine calls Node's \<open>path\<close> and \<open>fs\<close> modules, the repository's \<open>./fs\<close> helper
  (\<open>FSLib.path\<close>) and the TypeScript parser.  They are parameters of the model:
  \<^item> \<open>pathResolve p f\<close> is \<open>Path.resolve(Path.dirname(FSLib.path(p)), FSLib.path(f))\<close>;
  \<^item> \<open>extname\<close> is \<open>Path.extname\<close>, \<open>existsSync\<close> is \<open>FS.existsSync\<close>;
  \<^item> \<open>loadSource p\<close> is the \<open>code\<close> of \<open>getSourceInfo(p, FS.readFileSync(p, 'utf8'))\<close>, the
    file read, parsed and classified; \<open>None\<close> when reading the file throws;
  \<^item> \<open>syntaxKindPositive t\<close> is the test \<open>TS.SyntaxKind[t] > 0\<close>.
\<close>

record env =
  pathResolve :: "string \<Rightarrow> string \<Rightarrow> string"
  extname :: "string \<Rightarrow> string"
  existsSync :: "string \<Rightarrow> bool"
  loadSource :: "string \<Rightarrow> info list option"
  syntaxKindPositive :: "string \<Rightarrow> bool"

text \<open>
  How a call ends: it returns a value, an exception leaves it (\<open>Threw\<close>), or the model's
  recursion budget is used up (\<open>OutOfFuel\<close>).
\<close>

datatype 'a outcome = OutOfFuel | Threw | Returned 'a

section \<open>Type resolver: \<open>resolveType\<close>\<close>

text \<open>The \<open>_stack\<close> object: the files being resolved, keyed by path.\<close>

type_synonym stack = "string \<rightharpoonup> sourceInfo"

text \<open>
  The path an import record leads to: the module specifier resolved against the directory of
  the importing file, a \<open>.js\<close> extension dropped, and for a path without extension the
  declaration file \<open>.d.ts\<close> probed before the source file \<open>.ts\<close>.  \<open>None\<close> is the
  \<open>continue\<close> of the loop: neither file exists.
\<close>

definition importTarget :: "env \<Rightarrow> sourceInfo \<Rightarrow> info \<Rightarrow> string option" where
  "importTarget e sourceInfo info =
     (let resolvedPath = pathResolve e (path sourceInfo) (from' info);
          resolvedPath = (if extname e resolvedPath = ''.js''
                          then take (length resolvedPath - 3) resolvedPath
                          else resolvedPath)
      in if extname e resolvedPath = ''''
         then (if existsSync e (resolvedPath @ ''.d.ts'') then Some (resolvedPath @ ''.d.ts'')
               else if existsSync e (resolvedPath @ ''.ts'') then Some (resolvedPath @ ''.ts'')
               else None)
         else Some resolvedPath)"

text \<open>The \<open>switch (info.kind)\<close> at the end of the loop body: the record found, if any.\<close>

definition localMatch :: "string \<Rightarrow> info \<Rightarrow> info option" where
  "localMatch type info =
     (case kind info of
        Export \<Rightarrow>
          (case object info of
             None \<Rightarrow> None
           | Some obj \<Rightarrow>
               if name info = Some type \<or> name obj = Some type then Some obj else None)
      | Class \<Rightarrow> if name info = Some type then Some info else None
      | Interface \<Rightarrow> if name info = Some type then Some info else None
      | Object \<Rightarrow> if name info = Some type then Some info else None
      | Variable \<Rightarrow> if name info = Some type then Some info else None
      | _ \<Rightarrow> None)"

definition importItems :: "info \<Rightarrow> (string \<times> string) list" where
  "importItems info = (case imports' info of None \<Rightarrow> [] | Some items \<Rightarrow> items)"

text \<open>
  \<open>resolveType\<close> calls itself inside two nested loops.  Each loop is a function of its own,
  and the recursive call \<open>resolveType(resolvedSource, item, _stack)\<close> is the parameter \<open>rec\<close>
  of the loops.  The stack object is shared by all calls, so it is passed in and returned.

  \<open>resolveImports\<close> is \<open>for (const item in imports)\<close>: its result is \<open>Some\<close> of how
  \<open>resolveType\<close> ends when the loop body leaves the function, and \<open>None\<close> when the loop runs
  to its end.  A path found on the stack returns \<open>undefined\<close> at once; after an unsuccessful
  recursive call the entry stays on the stack and the loop goes on; a successful one deletes
  the entry and returns.
\<close>

type_synonym resolver =
  "sourceInfo \<Rightarrow> string \<Rightarrow> stack \<Rightarrow> resolved option outcome \<times> stack"

fun resolveImports ::
  "resolver \<Rightarrow> env \<Rightarrow> sourceInfo \<Rightarrow> string \<Rightarrow> info \<Rightarrow> (string \<times> string) list \<Rightarrow> stack
     \<Rightarrow> resolved option outcome option \<times> stack" where
  "resolveImports rec e sourceInfo type info [] stack = (None, stack)"
| "resolveImports rec e sourceInfo type info ((item, local) # rest) stack =
     (if item = type \<or> local = type then
        (case importTarget e sourceInfo info of
           None \<Rightarrow> resolveImports rec e sourceInfo type info rest stack
         | Some resolvedPath \<Rightarrow>
             if stack resolvedPath \<noteq> None then (Some (Returned None), stack)
             else
               (case loadSource e resolvedPath of
                  None \<Rightarrow> (Some Threw, stack)
                | Some resolvedCode \<Rightarrow>
                    let resolvedSource = \<lparr>path = resolvedPath, code = resolvedCode\<rparr>;
                        stack1 = stack(resolvedPath \<mapsto> resolvedSource)
                    in (case rec resolvedSource item stack1 of
                          (OutOfFuel, stack2) \<Rightarrow> (Some OutOfFuel, stack2)
                        | (Threw, stack2) \<Rightarrow> (Some Threw, stack2)
                        | (Returned (Some resolvedImport), stack2) \<Rightarrow>
                            (Some (Returned (Some
                               (Resolved (path sourceInfo) (r_resolvedInfo resolvedImport)
                                  (r_path resolvedImport) type))),
                             stack2(resolvedPath := None))
                        | (Returned None, stack2) \<Rightarrow>
                            resolveImports rec e sourceInfo type info rest stack2)))
      else resolveImports rec e sourceInfo type info rest stack)"

text \<open>\<open>resolveCode\<close> is \<open>for (const info of sourceInfo.code)\<close>.\<close>

fun resolveCode ::
  "resolver \<Rightarrow> env \<Rightarrow> sourceInfo \<Rightarrow> string \<Rightarrow> info list \<Rightarrow> stack
     \<Rightarrow> resolved option outcome \<times> stack" where
  "resolveCode rec e sourceInfo type [] stack = (Returned None, stack)"
| "resolveCode rec e sourceInfo type (info # rest) stack =
     (case (if kind info = Import
            then resolveImports rec e sourceInfo type info (importItems info) stack
            else (None, stack)) of
        (Some result, stack1) \<Rightarrow> (result, stack1)
      | (None, stack1) \<Rightarrow>
          (case localMatch type info of
             Some found \<Rightarrow>
               (Returned (Some (Resolved (path sourceInfo) found (path sourceInfo) type)), stack1)
           | None \<Rightarrow> resolveCode rec e sourceInfo type rest stack1))"

text \<open>
  \<open>resolveType fuel\<close> is \<open>resolveType\<close> with at most \<open>fuel\<close> nested calls; the first
  argument of the source, \<open>sourceInfo\<close>, comes after the collaborators.
\<close>

fun resolveType :: "nat \<Rightarrow> env \<Rightarrow> resolver" where
  "resolveType 0 e sourceInfo type stack = (OutOfFuel, stack)"
| "resolveType (Suc fuel) e sourceInfo type stack =
     resolveCode (resolveType fuel e) e sourceInfo type (code sourceInfo) stack"

text \<open>
  Vocabulary for the statements about the resolver: an import record binds a name when the
  name is a key or a value of its \<open>imports\<close> object; the names the resolver asks the
  imported files for when it is asked for a name, which are the keys of the import entries of
  the file that bind the name;
  and the relation between a query (file, name) and the queries the resolver reaches from it
  by following import records that bind the name.
\<close>

definition bindsName :: "string \<Rightarrow> info \<Rightarrow> bool" where
  "bindsName type info =
     (kind info = Import \<and> list_ex (\<lambda>(item, local). item = type \<or> local = type) (importItems info))"

definition requestedNames :: "info list \<Rightarrow> string \<Rightarrow> string list" where
  "requestedNames cs type =
     concat (map (\<lambda>i. map fst (filter (\<lambda>(item, local). item = type \<or> local = type)
                                 (importItems i)))
               (filter (\<lambda>i. kind i = Import) cs))"

inductive follows :: "env \<Rightarrow> sourceInfo \<Rightarrow> string \<Rightarrow> sourceInfo \<Rightarrow> string \<Rightarrow> bool"
  for e :: env where
  here: "follows e src ty src ty"
| hop: "\<lbrakk>info \<in> set (code src); kind info = Import; (item, loc) \<in> set (importItems info);
         item = ty \<or> loc = ty; importTarget e src info = Some p; loadSource e p = Some c;
         follows e \<lparr>path = p, code = c\<rparr> item src' ty'\<rbrakk>
        \<Longrightarrow> follows e src ty src' ty'"

definition locatedFrom :: "env \<Rightarrow> sourceInfo \<Rightarrow> string \<Rightarrow> info \<Rightarrow> bool" where
  "locatedFrom e src ty found =
     (\<exists>src' ty' d. follows e src ty src' ty' \<and> d \<in> set (code src')
        \<and> localMatch ty' d = Some found)"

text \<open>
  For the termination of the resolver: the number of files that can be loaded and are not on
  the stack, and what it means that a resolver returns (does not use up its budget) whenever
  fewer than \<open>k\<close> such files are left, leaving on the stack what was there when it returns
  \<open>undefined\<close>.
\<close>

definition unvisited :: "env \<Rightarrow> stack \<Rightarrow> nat" where
  "unvisited e stack = card ({p. loadSource e p \<noteq> None} - dom stack)"

definition returnsWithin :: "env \<Rightarrow> nat \<Rightarrow> resolver \<Rightarrow> bool" where
  "returnsWithin e k rec =
     (\<forall>s t st. unvisited e st < k \<longrightarrow>
        fst (rec s t st) \<noteq> OutOfFuel
        \<and> (fst (rec s t st) = Returned None \<longrightarrow> dom st \<subseteq> dom (snd (rec s t st))))"

section \<open>Inheritance flattener: \<open>autoExtendInfo\<close>\<close>

subsection \<open>\<open>extractTypes\<close> and \<open>isNativeType\<close>\<close>

text \<open>
  \<open>TYPE_SPLIT = /[\W\.]+/gsu\<close>: a separator is a maximal run of characters other than
  letters, digits and the underscore.  \<open>String.prototype.split\<close> returns the fields between
  the separators, the empty fields at the ends included.  In \<open>splitTypes\<close> the flag tells
  that the previous character belonged to a separator, and \<open>part\<close> is the field being read.
\<close>

definition isWordChar :: "char \<Rightarrow> bool" where
  "isWordChar c =
     (c \<in> set ''ABCDEFGHIJKLMNOPQRSTUVWXYZabcdefghijklmnopqrstuvwxyz0123456789_'')"

fun splitTypes :: "bool \<Rightarrow> string \<Rightarrow> string \<Rightarrow> string list" where
  "splitTypes inSeparator part [] = [part]"
| "splitTypes inSeparator part (c # cs) =
     (if isWordChar c then splitTypes False (part @ [c]) cs
      else if inSeparator then splitTypes True part cs
      else part # splitTypes True [] cs)"

text \<open>
  \<open>isCapitalCase\<close>: the first character equals its upper case (an empty text has the
  empty first character); of the ASCII characters, the lower-case letters are the ones that
  differ from their upper case.
\<close>

definition isCapitalCase :: "string \<Rightarrow> bool" where
  "isCapitalCase text =
     (case text of [] \<Rightarrow> True | firstChar # _ \<Rightarrow> firstChar \<notin> set ''abcdefghijklmnopqrstuvwxyz'')"

definition NATIVE_TYPES :: "string list" where
  "NATIVE_TYPES = [''Array'', ''Function'', ''NaN'', ''Number'', ''Object'', ''String'', ''Symbol'']"

text \<open>
  \<open>NATIVE_HELPER = /^(?:Array|Extract|Omit|Partial|Record|Require)(?:<|$)/su\<close>: one of the
  six names at the start, followed by \<open><\<close> or by the end of the text.
\<close>

definition NATIVE_HELPER :: "string \<Rightarrow> bool" where
  "NATIVE_HELPER type =
     list_ex (\<lambda>helper. take (length helper) type = helper
                \<and> (case drop (length helper) type of [] \<Rightarrow> True | c # _ \<Rightarrow> c = CHR ''<''))
       [''Array'', ''Extract'', ''Omit'', ''Partial'', ''Record'', ''Require'']"

definition isNativeType :: "env \<Rightarrow> string \<Rightarrow> bool" where
  "isNativeType e type =
     (length type < 2 \<or> \<not> isCapitalCase type \<or> type \<in> set NATIVE_TYPES
      \<or> NATIVE_HELPER type \<or> syntaxKindPositive e type)"

text \<open>\<open>if (!types.includes(part)) types.push(part)\<close>.\<close>

definition pushNew :: "string list \<Rightarrow> string \<Rightarrow> string list" where
  "pushNew types part = (if part \<in> set types then types else types @ [part])"

definition extractTypes :: "env \<Rightarrow> string \<Rightarrow> bool \<Rightarrow> string list" where
  "extractTypes e typeString includeNativeTypes =
     foldl pushNew []
       (filter (\<lambda>part. \<not> (\<not> includeNativeTypes \<and> isNativeType e part))
          (splitTypes False [] typeString))"

subsection \<open>\<open>extractInfo\<close> and \<open>newCodeInfo\<close>\<close>

text \<open>
  \<open>extractInfo\<close> returns the records of the five named kinds whose name is the given one,
  and \<open>undefined\<close> when there is none.  The name asked for is \<open>property.name\<close>, which is
  \<open>undefined\<close> for a Doclet record: hence an optional name.
\<close>

definition extractInfo :: "info list \<Rightarrow> string option \<Rightarrow> info list option" where
  "extractInfo arr nm =
     (let extractions =
            filter (\<lambda>info. kind info \<in> {Class, Function, Interface, Property, Variable}
                      \<and> name info = nm) arr
      in if extractions \<noteq> [] then Some extractions else None)"

text \<open>
  \<open>newCodeInfo\<close> builds a new object with the keys of the template: an array is mapped,
  its object items copied by \<open>newCodeInfo\<close>; an object with a \<open>kind\<close> is copied by
  \<open>newCodeInfo\<close>; every other value is taken over as it is.  Here records are values, and the
  copy has the fields of the template; which objects the copy shares with the template is the
  subject of the store model further down.
\<close>

fun newCodeInfo :: "info \<Rightarrow> info" where
  "newCodeInfo (Info k n ext props imps frm obj inh doc tgs) =
     Info k n ext (map newCodeInfo props) imps frm (map_option newCodeInfo obj) inh
       (map_option newCodeInfo doc) tgs"

text \<open>\<open>property.inherited = true\<close> and the new state of \<open>infoToExtend.properties\<close>.\<close>

fun markInherited :: "info \<Rightarrow> info" where
  "markInherited (Info k n ext props imps frm obj inh doc tgs) =
     Info k n ext props imps frm obj True doc tgs"

fun withProperties :: "info \<Rightarrow> info list \<Rightarrow> info" where
  "withProperties (Info k n ext props imps frm obj inh doc tgs) props' =
     Info k n ext props' imps frm obj inh doc tgs"

subsection \<open>\<open>autoExtendInfo\<close>\<close>

text \<open>
  The candidate list \<open>extendsToDo\<close>: the identifiers of all \<open>extends\<close> entries, each once, in
  the order they are met.
\<close>

definition extendsToDo :: "env \<Rightarrow> info \<Rightarrow> string list" where
  "extendsToDo e infoToExtend =
     (case extends infoToExtend of
        None \<Rightarrow> []
      | Some ext \<Rightarrow>
          let extendsTypes = (case ext of ExtendsString s \<Rightarrow> [s] | ExtendsArray ts \<Rightarrow> ts)
          in foldl (\<lambda>todo extendsType. foldl pushNew todo (extractTypes e extendsType False))
               [] extendsTypes)"

text \<open>
  \<open>autoExtendInfo\<close> pushes onto \<open>infoToExtend.properties\<close>, so the property list is passed
  along and returned.  \<open>inheritProperties\<close> is \<open>for (let property of resolvedInfo.properties)\<close>,
  \<open>extendWith\<close> is the body of the outer loop once the candidate is resolved, \<open>extendAll\<close> is
  \<open>for (const extendType of extendsToDo)\<close>.  The function has no \<open>return\<close> with a value: when
  it returns, it returns \<open>undefined\<close>, which is \<open>Returned None\<close>.  The second component of the
  result is \<open>infoToExtend\<close> after the call.

  Records are passed by value.  A resolved base is an object other than \<open>infoToExtend\<close>
  unless the record resolves to itself (a base found through an import never is the record:
  the imported file is parsed anew).  In that one case the source iterates over the very list
  it pushes onto: it then pushes nothing, as the model does, or it does not return.  So the
  model gives the result of every call that returns.
\<close>

fun inheritProperties :: "info list \<Rightarrow> info list \<Rightarrow> info list" where
  "inheritProperties ownProperties [] = ownProperties"
| "inheritProperties ownProperties (property # rest) =
     (if extractInfo ownProperties (name property) \<noteq> None
      then inheritProperties ownProperties rest
      else inheritProperties (ownProperties @ [markInherited (newCodeInfo property)]) rest)"

definition extendWith :: "info list \<Rightarrow> info \<Rightarrow> info list" where
  "extendWith ownProperties resolvedInfo =
     (if kind resolvedInfo \<noteq> Class \<and> kind resolvedInfo \<noteq> Interface then ownProperties
      else inheritProperties ownProperties (properties resolvedInfo))"

fun extendAll ::
  "(string \<Rightarrow> resolved option outcome) \<Rightarrow> string list \<Rightarrow> info list
     \<Rightarrow> info option outcome \<times> info list" where
  "extendAll resolve [] ownProperties = (Returned None, ownProperties)"
| "extendAll resolve (extendType # rest) ownProperties =
     (case resolve extendType of
        OutOfFuel \<Rightarrow> (OutOfFuel, ownProperties)
      | Threw \<Rightarrow> (Threw, ownProperties)
      | Returned None \<Rightarrow> (Returned None, ownProperties)
      | Returned (Some resolvedExtendType) \<Rightarrow>
          extendAll resolve rest (extendWith ownProperties (r_resolvedInfo resolvedExtendType)))"

definition autoExtendInfo ::
  "nat \<Rightarrow> env \<Rightarrow> sourceInfo \<Rightarrow> info \<Rightarrow> info option outcome \<times> info" where
  "autoExtendInfo fuel e sourceInfo infoToExtend =
     (case extendAll (\<lambda>extendType. fst (resolveType fuel e sourceInfo extendType Map.empty))
             (extendsToDo e infoToExtend) (properties infoToExtend) of
        (result, ownProperties) \<Rightarrow> (result, withProperties infoToExtend ownProperties))"

text \<open>
  The members appended by the flattener, as the specification describes them: each is marked
  inherited and was appended when no record of its name was present before it.
\<close>

definition appendedWhenAbsent :: "info list \<Rightarrow> info list \<Rightarrow> bool" where
  "appendedWhenAbsent ownProperties added =
     (\<forall>i<length added. inherited (added ! i)
        \<and> extractInfo (ownProperties @ take i added) (name (added ! i)) = None)"

section \<open>Node classifier: \<open>getImportInfo\<close> and \<open>sanitizeText\<close>\<close>

text \<open>
  The part of the parser's tree that \<open>getImportInfo\<close> reads.  An import declaration carries
  the text of its module specifier (\<open>node.moduleSpecifier.getText()\<close>, the quotes included)
  and, when it has an import clause, the children of the clause as \<open>getNodesChildren\<close> lists
  them: an identifier (the default import), the named imports with their import specifiers
  (\<open>propertyName.text\<close> when the import renames, and \<open>name.text\<close>), or a namespace import.
\<close>

datatype tsNode =
    Identifier string
  | NamedImports "tsNode list"
  | ImportSpecifier "string option" string
  | NamespaceImport string
  | ImportDeclaration string "tsNode list option"
  | OtherNode

text \<open>
  \<open>SANITIZE_TEXT = /^(['"`]?)(.*)\1$/gsu\<close>, replaced by its second group: a text that starts
  with a quote character and ends with the same character (two characters at least) loses
  both; any other text matches with an empty first group and stays as it is.
\<close>

definition quoteChars :: "char list" where
  "quoteChars = [CHR 0x27, CHR 0x22, CHR 0x60]"

definition sanitizeText :: "string \<Rightarrow> string" where
  "sanitizeText text =
     (case text of
        [] \<Rightarrow> []
      | q # rest \<Rightarrow>
          if q \<in> set quoteChars \<and> rest \<noteq> [] \<and> last rest = q then butlast rest else text)"

text \<open>
  An assignment \<open>object[key] = value\<close>: the value of an existing key is replaced where it
  stands, a new key is added at the end.
\<close>

fun setKey :: "(string \<times> 'v) list \<Rightarrow> string \<Rightarrow> 'v \<Rightarrow> (string \<times> 'v) list" where
  "setKey [] key v = [(key, v)]"
| "setKey ((k, w) # rest) key v =
     (if k = key then (k, v) # rest else (k, w) # setKey rest key v)"

text \<open>
  The two loops of \<open>getImportInfo\<close>: over the children of the named imports, and over the
  children of the import clause.  \<open>propertyName\<close> is
  \<open>child.propertyName && child.propertyName.text || child.name.text\<close>.
\<close>

fun namedImports :: "(string \<times> string) list \<Rightarrow> tsNode list \<Rightarrow> (string \<times> string) list" where
  "namedImports imports [] = imports"
| "namedImports imports (child # rest) =
     (case child of
        ImportSpecifier childPropertyName childName \<Rightarrow>
          let propertyName =
                (case childPropertyName of
                   Some t \<Rightarrow> if t \<noteq> [] then t else childName
                 | None \<Rightarrow> childName)
          in namedImports (setKey imports propertyName childName) rest
      | _ \<Rightarrow> namedImports imports rest)"

fun importClauses :: "(string \<times> string) list \<Rightarrow> tsNode list \<Rightarrow> (string \<times> string) list" where
  "importClauses imports [] = imports"
| "importClauses imports (clause # rest) =
     (let imports1 = (case clause of Identifier t \<Rightarrow> setKey imports ''default'' t
                                   | _ \<Rightarrow> imports);
          imports2 = (case clause of NamedImports children \<Rightarrow> namedImports imports1 children
                                   | _ \<Rightarrow> imports1)
      in importClauses imports2 rest)"

text \<open>
  \<open>getImportInfo\<close>: \<open>undefined\<close> for a node that is no import declaration; the fields
  \<open>flags\<close>, \<open>meta\<close> and \<open>node\<close> of the record are not part of the model.
\<close>

definition getImportInfo :: "tsNode \<Rightarrow> info option" where
  "getImportInfo node =
     (case node of
        ImportDeclaration moduleSpecifier importClause \<Rightarrow>
          Some (Info Import None None []
                  (case importClause of
                     None \<Rightarrow> None
                   | Some clauses \<Rightarrow> Some (importClauses [] clauses))
                  (sanitizeText moduleSpecifier) None False None [])
      | _ \<Rightarrow> None)"

section \<open>Doclet parser: \<open>getDocletsBetween\<close> and \<open>getDocletInfosBetween\<close>\<close>

text \<open>
  \<open>DOCLET = /\/\*\*.*?\*\//gsu\<close>, matched with \<open>matchAll\<close>: a block starts at \<open>/**\<close> and
  ends at the first \<open>*/\<close> after these three characters; the search goes on behind the block.
  In \<open>matchDoclets\<close> the first argument is the text of the block being read (\<open>None\<close>
  outside a block) and the second the number of characters already taken by a look-ahead.
\<close>

fun matchDoclets :: "string option \<Rightarrow> nat \<Rightarrow> string \<Rightarrow> string list" where
  "matchDoclets block skip [] = []"
| "matchDoclets block (Suc skip) (c # cs) = matchDoclets block skip cs"
| "matchDoclets None 0 (c # cs) =
     (if take 3 (c # cs) = ''/**'' then matchDoclets (Some ''/**'') (Suc (Suc 0)) cs
      else matchDoclets None 0 cs)"
| "matchDoclets (Some text) 0 (c # cs) =
     (if take 2 (c # cs) = ''*/'' then (text @ ''*/'') # matchDoclets None (Suc 0) cs
      else matchDoclets (Some (text @ [c])) 0 cs)"

text \<open>
  The text \<open>getDocletsBetween\<close> hands to the parser: every block followed by the statement
  \<open>'';\<close> on a line of its own.
\<close>

definition docletsSource :: "string \<Rightarrow> string" where
  "docletsSource text =
     concat (map (\<lambda>match. match @ [CHR 0x0A, CHR 0x27, CHR 0x27, CHR '';'', CHR 0x0A])
               (matchDoclets None 0 text))"

text \<open>
  What the parser returns for a block, as far as \<open>getDocletInfosBetween\<close> reads it: a JSDoc
  node has a comment (a text, or an array of parts with a \<open>text\<close> each) and tags; a tag has the
  text of its name (\<open>tag.tagName.text\<close>) and its own source text (\<open>tag.getText()\<close>).
\<close>

datatype jsDocComment = CommentText string | CommentParts "string list"

record jsDocTag =
  tagName :: string
  tagText :: string

datatype docNode = JSDoc "jsDocComment option" "jsDocTag list option" | OtherDocNode

text \<open>
  \<open>String.prototype.trim\<close> removes white space and line terminators at both ends; of the
  characters of the model these are tab, line feed, vertical tab, form feed, carriage return,
  space and the no-break space.
\<close>

definition isWhiteSpace :: "char \<Rightarrow> bool" where
  "isWhiteSpace c = (c \<in> set [CHR 0x09, CHR 0x0A, CHR 0x0B, CHR 0x0C, CHR 0x0D, CHR 0x20, CHR 0xA0])"

definition trim :: "string \<Rightarrow> string" where
  "trim s = rev (dropWhile isWhiteSpace (rev (dropWhile isWhiteSpace s)))"

text \<open>
  \<open>split(/\n *\*?/gu)\<close>: a separator is a line feed, the spaces after it and one asterisk
  if it follows them.  \<open>AfterNewline\<close> is the state inside a separator, before its asterisk.
\<close>

datatype gutterState = InText | AfterNewline

fun splitGutter :: "gutterState \<Rightarrow> string \<Rightarrow> string \<Rightarrow> string list" where
  "splitGutter st part [] = [part]"
| "splitGutter InText part (c # cs) =
     (if c = CHR 0x0A then part # splitGutter AfterNewline [] cs
      else splitGutter InText (part @ [c]) cs)"
| "splitGutter AfterNewline part (c # cs) =
     (if c = CHR 0x20 then splitGutter AfterNewline part cs
      else if c = CHR ''*'' then splitGutter InText part cs
      else if c = CHR 0x0A then part # splitGutter AfterNewline [] cs
      else splitGutter InText (part @ [c]) cs)"

fun joinWith :: "string \<Rightarrow> string list \<Rightarrow> string" where
  "joinWith sep [] = []"
| "joinWith sep [x] = x"
| "joinWith sep (x # y # ys) = x @ sep @ joinWith sep (y # ys)"

text \<open>
  \<open>newDocletInfo()\<close> and \<open>addTag\<close>: \<open>tags[tag] = tags[tag] || []\<close>, and the text is pushed
  unless it is empty.
\<close>

definition newDocletInfo :: info where
  "newDocletInfo = Info Doclet None None [] None [] None False None []"

fun addTag :: "info \<Rightarrow> string \<Rightarrow> string \<Rightarrow> info" where
  "addTag (Info k n ext props imps frm obj inh doc tgs) tag text =
     (let texts = (case map_of tgs tag of None \<Rightarrow> [] | Some ts \<Rightarrow> ts)
      in Info k n ext props imps frm obj inh doc
           (setKey tgs tag (if text \<noteq> [] then texts @ [text] else texts)))"

text \<open>
  The text stored for a tag:
  \<open>tag.getText().trim().substring(_tagName.length + 1).trim().split(/\n *\*?/gu).join('\n').trim()\<close>.
\<close>

definition tagTextOf :: "jsDocTag \<Rightarrow> string" where
  "tagTextOf tag =
     trim (joinWith [CHR 0x0A]
       (splitGutter InText []
          (trim (substringFrom (trim (tagText tag)) (int (length (tagName tag)) + 1)))))"

text \<open>
  The loops of \<open>getDocletInfosBetween\<close>: over the tags of a JSDoc node, over the nodes of a
  block, and over the blocks \<open>getDocletsBetween\<close> returned, which are the argument here.  A
  comment is used when it is truthy: a non-empty text, or any array.  The fields \<open>meta\<close> and
  \<open>node\<close> of the record are not part of the model.
\<close>

fun addTags :: "info \<Rightarrow> jsDocTag list \<Rightarrow> info" where
  "addTags doclet' [] = doclet'"
| "addTags doclet' (tag # rest) = addTags (addTag doclet' (tagName tag) (tagTextOf tag)) rest"

fun addNodes :: "info \<Rightarrow> docNode list \<Rightarrow> info" where
  "addNodes doclet' [] = doclet'"
| "addNodes doclet' (node # rest) =
     (case node of
        JSDoc comment nodeTags \<Rightarrow>
          let doclet1 =
                (case comment of
                   None \<Rightarrow> doclet'
                 | Some (CommentText text) \<Rightarrow>
                     if text \<noteq> [] then addTag doclet' ''description'' (trim text) else doclet'
                 | Some (CommentParts parts) \<Rightarrow>
                     addTag doclet' ''description'' (trim (joinWith [CHR 0x0A] parts)));
              doclet2 =
                (case nodeTags of None \<Rightarrow> doclet1 | Some ts \<Rightarrow> addTags doclet1 ts)
          in addNodes doclet2 rest
      | OtherDocNode \<Rightarrow> addNodes doclet' rest)"

definition getDocletInfosBetween :: "docNode list list \<Rightarrow> info list" where
  "getDocletInfosBetween doclets = map (addNodes newDocletInfo) doclets"

section \<open>Objects and references: \<open>newCodeInfo\<close> and \<open>addTag\<close> on a store\<close>

text \<open>
  Which objects a copy shares with its template cannot be read off values, so here the records
  are what they are in the program: objects in a store, held through references.  A store is
  the list of its objects, a reference is a position in it, and a new object is put at the
  end.  An object is a list of its keys with their values, in insertion order, or an array.
\<close>

datatype jsValue = Undefined | Null | Bool bool | Num int | Str string | Ref nat

datatype jsObject = Obj "(string \<times> jsValue) list" | Arr "jsValue list"

type_synonym store = "jsObject list"

definition truthy :: "jsValue \<Rightarrow> bool" where
  "truthy v =
     (case v of Undefined \<Rightarrow> False | Null \<Rightarrow> False | Bool b \<Rightarrow> b | Num n \<Rightarrow> n \<noteq> 0
              | Str s \<Rightarrow> s \<noteq> [] | Ref r \<Rightarrow> True)"

text \<open>The decimal text of an index: the keys \<open>Object.keys\<close> gives for an array.\<close>

fun showNat :: "nat \<Rightarrow> string" where
  "showNat n =
     (if n < 10 then [''0123456789'' ! n]
      else showNat (n div 10) @ [''0123456789'' ! (n mod 10)])"

definition entriesOf :: "jsObject \<Rightarrow> (string \<times> jsValue) list" where
  "entriesOf obj =
     (case obj of
        Obj entries \<Rightarrow> entries
      | Arr items \<Rightarrow> zip (map showNat [0..<length items]) items)"

text \<open>A property read \<open>object[key]\<close> and a property write \<open>object[key] = value\<close>.\<close>

definition fieldOf :: "store \<Rightarrow> nat \<Rightarrow> string \<Rightarrow> jsValue" where
  "fieldOf s r key =
     (if r < length s
      then (case map_of (entriesOf (s ! r)) key of None \<Rightarrow> Undefined | Some v \<Rightarrow> v)
      else Undefined)"

definition setField :: "store \<Rightarrow> nat \<Rightarrow> string \<Rightarrow> jsValue \<Rightarrow> store" where
  "setField s r key v =
     (case s ! r of Obj entries \<Rightarrow> s[r := Obj (setKey entries key v)] | Arr items \<Rightarrow> s)"

text \<open>
  \<open>newCodeInfo\<close>, with the recursive call as the parameter \<open>rec\<close> of its loops.
  \<open>copyItems\<close> is the callback of \<open>template[key].map\<close> over the items of an array: an item
  that is an object is copied by \<open>newCodeInfo\<close>, any other item is taken over.  \<open>copyKeys\<close> is
  \<open>for (const key of Object.keys(template))\<close>: an array value is replaced by the mapped array,
  an object value with a truthy \<open>kind\<close> by its copy, and every other value, a reference to an
  object without \<open>kind\<close> included, is stored as it is.
\<close>

type_synonym copier = "store \<Rightarrow> nat \<Rightarrow> (nat \<times> store) outcome"

fun copyItems :: "copier \<Rightarrow> store \<Rightarrow> jsValue list \<Rightarrow> (jsValue list \<times> store) outcome" where
  "copyItems rec s [] = Returned ([], s)"
| "copyItems rec s (item # rest) =
     (case item of
        Ref r \<Rightarrow>
          (case rec s r of
             OutOfFuel \<Rightarrow> OutOfFuel
           | Threw \<Rightarrow> Threw
           | Returned (r', s1) \<Rightarrow>
               (case copyItems rec s1 rest of
                  OutOfFuel \<Rightarrow> OutOfFuel
                | Threw \<Rightarrow> Threw
                | Returned (items, s2) \<Rightarrow> Returned (Ref r' # items, s2)))
      | _ \<Rightarrow>
          (case copyItems rec s rest of
             OutOfFuel \<Rightarrow> OutOfFuel
           | Threw \<Rightarrow> Threw
           | Returned (items, s2) \<Rightarrow> Returned (item # items, s2)))"

fun copyKeys :: "copier \<Rightarrow> store \<Rightarrow> nat \<Rightarrow> (string \<times> jsValue) list \<Rightarrow> store outcome" where
  "copyKeys rec s newInfo [] = Returned s"
| "copyKeys rec s newInfo ((key, v) # rest) =
     (case v of
        Ref r \<Rightarrow>
          (if length s \<le> r then Threw
           else (case s ! r of
              Arr items \<Rightarrow>
                (case copyItems rec s items of
                   OutOfFuel \<Rightarrow> OutOfFuel
                 | Threw \<Rightarrow> Threw
                 | Returned (items', s1) \<Rightarrow>
                     copyKeys rec (setField (s1 @ [Arr items']) newInfo key (Ref (length s1)))
                       newInfo rest)
            | Obj entries \<Rightarrow>
                if truthy (fieldOf s r ''kind'')
                then (case rec s r of
                        OutOfFuel \<Rightarrow> OutOfFuel
                      | Threw \<Rightarrow> Threw
                      | Returned (r', s1) \<Rightarrow>
                          copyKeys rec (setField s1 newInfo key (Ref r')) newInfo rest)
                else copyKeys rec (setField s newInfo key v) newInfo rest))
      | _ \<Rightarrow> copyKeys rec (setField s newInfo key v) newInfo rest)"

fun newCodeInfo_store :: "nat \<Rightarrow> copier" where
  "newCodeInfo_store 0 s template = OutOfFuel"
| "newCodeInfo_store (Suc fuel) s template =
     (if length s \<le> template then Threw
      else (case copyKeys (newCodeInfo_store fuel) (s @ [Obj []]) (length s)
                   (entriesOf (s ! template)) of
              OutOfFuel \<Rightarrow> OutOfFuel
            | Threw \<Rightarrow> Threw
            | Returned s1 \<Rightarrow> Returned (length s, s1)))"

text \<open>
  \<open>addTag\<close> on the store: \<open>tags[tag] = tags[tag] || []\<close> puts a new array under a tag that
  has none, and \<open>tags[tag].push(text)\<close> changes the array in place.  A \<open>TypeError\<close> (no
  \<open>tags\<close> object, no array to push onto) is \<open>Threw\<close>.
\<close>

definition addTag_store :: "store \<Rightarrow> nat \<Rightarrow> string \<Rightarrow> string \<Rightarrow> store outcome" where
  "addTag_store s doclet' tag text =
     (case fieldOf s doclet' ''tags'' of
        Ref tagsRef \<Rightarrow>
          (let s1 = (if truthy (fieldOf s tagsRef tag) then s
                     else setField (s @ [Arr []]) tagsRef tag (Ref (length s)))
           in if text = [] then Returned s1
              else (case fieldOf s1 tagsRef tag of
                      Ref a \<Rightarrow>
                        (if length s1 \<le> a then Threw
                         else (case s1 ! a of
                                 Arr items \<Rightarrow> Returned (s1[a := Arr (items @ [Str text])])
                               | Obj entries \<Rightarrow> Threw))
                    | _ \<Rightarrow> Threw))
      | _ \<Rightarrow> Threw)"

text \<open>The tag map of a doclet object, read as a value: every tag with its texts.\<close>

definition textsOf :: "store \<Rightarrow> jsValue \<Rightarrow> string list" where
  "textsOf s v =
     (case v of
        Ref a \<Rightarrow>
          (if a < length s
           then concat (map (\<lambda>item. case item of Str t \<Rightarrow> [t] | _ \<Rightarrow> []) (map snd (entriesOf (s ! a))))
           else [])
      | _ \<Rightarrow> [])"

definition tagsOf :: "store \<Rightarrow> nat \<Rightarrow> (string \<times> string list) list" where
  "tagsOf s doclet' =
     (case fieldOf s doclet' ''tags'' of
        Ref tagsRef \<Rightarrow>
          (if tagsRef < length s
           then map (\<lambda>(tag, v). (tag, textsOf s v)) (entriesOf (s ! tagsRef))
           else [])
      | _ \<Rightarrow> [])"

text \<open>
  The store of the inheritance scenario of the specification: the property \<open>x\<close> of
  \<open>interface Base { /** d */ x: number }\<close>, at reference 0, with its doclet at reference 1,
  the tag map of the doclet at reference 2 and the array of the description at reference 3.
\<close>

definition baseStore :: store where
  "baseStore =
     [Obj [(''kind'', Str ''Property''), (''name'', Str ''x''), (''type'', Str ''number''),
           (''doclet'', Ref 1)],
      Obj [(''kind'', Str ''Doclet''), (''tags'', Ref 2)],
      Obj [(''description'', Ref 3)],
      Arr [Str ''d'']]"

text \<open>
  The same store after the property has been copied: the copy at reference 4 and the copy of
  its doclet at reference 5.
\<close>

definition copiedStore :: store where
  "copiedStore =
     baseStore @
     [Obj [(''kind'', Str ''Property''), (''name'', Str ''x''), (''type'', Str ''number''),
           (''doclet'', Ref 5)],
      Obj [(''kind'', Str ''Doclet''), (''tags'', Ref 2)]]"

section \<open>Sample projects\<close>

text \<open>
  Concrete inputs for the statements below.  The records are written with the fields the
  classifier sets for each kind; all other fields are absent.
\<close>

definition classInfo :: "string \<Rightarrow> extendsValue option \<Rightarrow> info list \<Rightarrow> info" where
  "classInfo n ext props = Info Class (Some n) ext props None [] None False None []"

definition interfaceInfo :: "string \<Rightarrow> extendsValue option \<Rightarrow> info list \<Rightarrow> info" where
  "interfaceInfo n ext props = Info Interface (Some n) ext props None [] None False None []"

definition propertyInfo :: "string \<Rightarrow> info" where
  "propertyInfo n = Info Property (Some n) None [] None [] None False None []"

definition importInfo :: "string \<Rightarrow> (string \<times> string) list \<Rightarrow> info" where
  "importInfo specifier items = Info Import None None [] (Some items) specifier None False None []"

text \<open>
  A project whose files all lie in the directory \<open>/src\<close> and whose imports are written
  \<open>'./name.js'\<close>: resolving \<open>./name.js\<close> against the directory of a file gives
  \<open>/src/name.js\<close>, the extension of a path is what follows its last dot, and the files that
  exist are the listed ones.  No identifier used below is a member of \<open>TS.SyntaxKind\<close>.
\<close>

definition endsWith :: "string \<Rightarrow> string \<Rightarrow> bool" where
  "endsWith suffix s = (length suffix \<le> length s \<and> drop (length s - length suffix) s = suffix)"

definition projectEnv :: "(string \<times> info list) list \<Rightarrow> env" where
  "projectEnv files =
     \<lparr>pathResolve = (\<lambda>p specifier. ''/src/'' @ drop 2 specifier),
      extname = (\<lambda>p. if endsWith ''.js'' p then ''.js''
                      else if endsWith ''.ts'' p then ''.ts'' else ''''),
      existsSync = (\<lambda>p. map_of files p \<noteq> None),
      loadSource = map_of files,
      syntaxKindPositive = (\<lambda>t. False)\<rparr>"

subsection \<open>Facts about \<open>substring\<close>\<close>


lemma substringFrom_drop: "substringFrom s a = drop (nat a) s"
  by (auto simp: substringFrom_def substring_def Let_def min_def max_def)


subsection \<open>Sorted application reads the original offsets\<close>









text \<open>
  C10.  For a non-empty list the caller's \<open>replacements\<close> array is sorted in place: after the
  call the array holds the same replacements, ordered by descending start offset, with
  replacements of equal start in their former relative order; so an array that was not in
  descending order has been reordered.
\<close>

theorem changeSourceCode_sorts_argument_in_place:
  assumes "rs \<noteq> []"
  shows "\<exists>rs'. snd (changeSourceCode text (Some rs)) = Some rs'
           \<and> mset rs' = mset rs
           \<and> sorted_wrt (\<lambda>x y. fst y \<le> fst x) rs'
           \<and> (\<forall>k. filter (\<lambda>r. fst r = k) rs' = filter (\<lambda>r. fst r = k) rs)
           \<and> (\<not> sorted_wrt (\<lambda>x y. fst y \<le> fst x) rs \<longrightarrow> rs' \<noteq> rs)"
proof -
  let ?rs' = "sortReplacements rs"
  have res: "snd (changeSourceCode text (Some rs)) = Some ?rs'"
    using assms by (simp add: changeSourceCode_def Let_def)
  have perm: "mset ?rs' = mset rs"
    by (simp add: sortReplacements_def)
  have "sorted (map (\<lambda>r. - fst r) ?rs')"
    by (simp add: sortReplacements_def)
  then have srt: "sorted_wrt (\<lambda>x y. fst y \<le> fst x) ?rs'"
    by (simp add: sorted_map)
  have stable: "filter (\<lambda>r. fst r = k) ?rs' = filter (\<lambda>r. fst r = k) rs" for k
  proof -
    have "filter (\<lambda>r. - fst r = - k) (sort_key (\<lambda>r. - fst r) rs) = filter (\<lambda>r. - fst r = - k) rs"
      by (rule sort_key_stable)
    then show ?thesis by (simp add: sortReplacements_def)
  qed
  from res perm srt stable show ?thesis by metis
qed

theorem changeSourceCode_sorts_argument_in_place_witness:
  "[(1, 3, ''X''), (4, 5, ''Y'')] \<noteq> ([] :: replacement list)
   \<and> \<not> sorted_wrt (\<lambda>x y. fst y \<le> fst x) [(1::int, 3::int, ''X''), (4, 5, ''Y'')]
   \<and> snd (changeSourceCode ''abcdef'' (Some [(1, 3, ''X''), (4, 5, ''Y'')]))
       = Some [(4, 5, ''Y''), (1, 3, ''X'')]"
proof -
  have ne: "[(1, 3, ''X''), (4, 5, ''Y'')] \<noteq> ([] :: replacement list)" by simp
  from changeSourceCode_sorts_argument_in_place [OF ne, of "''abcdef''"]
  obtain rs' where "snd (changeSourceCode ''abcdef'' (Some [(1, 3, ''X''), (4, 5, ''Y'')])) = Some rs'"
    by blast
  moreover have "snd (changeSourceCode ''abcdef'' (Some [(1, 3, ''X''), (4, 5, ''Y'')]))
       = Some [(4, 5, ''Y''), (1, 3, ''X'')]"
    by (simp add: changeSourceCode_def sortReplacements_def)
  ultimately show ?thesis by simp
qed

section \<open>Properties of the type resolver\<close>

lemmas fixture_defs = projectEnv_def classInfo_def interfaceInfo_def propertyInfo_def
  importInfo_def endsWith_def importTarget_def localMatch_def importItems_def
  requestedNames_def bindsName_def

subsection \<open>Termination\<close>

lemma unvisited_mono:
  assumes "finite {p. loadSource e p \<noteq> None}" and "dom st \<subseteq> dom st'"
  shows "unvisited e st' \<le> unvisited e st"
  unfolding unvisited_def using assms by (intro card_mono) auto

lemma unvisited_push:
  assumes fin: "finite {p. loadSource e p \<noteq> None}"
      and "loadSource e p = Some c" and "st p = None"
  shows "unvisited e (st(p \<mapsto> s)) < unvisited e st"
  unfolding unvisited_def
proof (rule psubset_card_mono)
  show "finite ({p. loadSource e p \<noteq> None} - dom st)" using fin by simp
  have "p \<in> {p. loadSource e p \<noteq> None} - dom st" using assms(2,3) by auto
  moreover have "p \<notin> {p. loadSource e p \<noteq> None} - dom (st(p \<mapsto> s))" by simp
  ultimately show "{p. loadSource e p \<noteq> None} - dom (st(p \<mapsto> s))
                     \<subset> {p. loadSource e p \<noteq> None} - dom st"
    by auto
qed

lemma resolveImports_returns:
  fixes stack :: stack
  assumes fin: "finite {p. loadSource e p \<noteq> None}"
      and rec: "returnsWithin e k rec"
      and m: "unvisited e stack \<le> k"
  shows "fst (resolveImports rec e src ty info items stack) \<noteq> Some OutOfFuel
       \<and> (fst (resolveImports rec e src ty info items stack) \<in> {None, Some (Returned None)}
            \<longrightarrow> dom stack \<subseteq> dom (snd (resolveImports rec e src ty info items stack)))"
  using m
proof (induction items arbitrary: stack)
  case Nil
  then show ?case by simp
next
  case (Cons x items)
  obtain item loc where x: "x = (item, loc)" by (cases x)
  show ?case
  proof (cases "item = ty \<or> loc = ty")
    case False
    then show ?thesis using Cons.IH [OF Cons.prems] x by simp
  next
    case bind: True
    show ?thesis
    proof (cases "importTarget e src info")
      case None
      then show ?thesis using Cons.IH [OF Cons.prems] x bind by simp
    next
      case (Some p)
      show ?thesis
      proof (cases "stack p \<noteq> None")
        case True
        then show ?thesis using x bind Some by simp
      next
        case nst: False
        show ?thesis
        proof (cases "loadSource e p")
          case None
          then show ?thesis using x bind Some nst by simp
        next
          case (Some c)
          let ?s = "\<lparr>path = p, code = c\<rparr>"
          let ?st1 = "stack(p \<mapsto> ?s)"
          have lt: "unvisited e ?st1 < unvisited e stack"
            using fin Some nst by (intro unvisited_push) auto
          then have ltk: "unvisited e ?st1 < k" using Cons.prems by simp
          obtain out st2 where rc: "rec ?s item ?st1 = (out, st2)" by (cases "rec ?s item ?st1")
          from rec ltk rc have nf: "out \<noteq> OutOfFuel"
            and grow: "out = Returned None \<Longrightarrow> dom ?st1 \<subseteq> dom st2"
            unfolding returnsWithin_def by (metis fst_conv snd_conv)+
          have step: "resolveImports rec e src ty info (x # items) stack =
             (case out of OutOfFuel \<Rightarrow> (Some OutOfFuel, st2)
              | Threw \<Rightarrow> (Some Threw, st2)
              | Returned None \<Rightarrow> resolveImports rec e src ty info items st2
              | Returned (Some ri) \<Rightarrow>
                  (Some (Returned (Some (Resolved (path src) (r_resolvedInfo ri) (r_path ri) ty))),
                   st2(p := None)))"
            using x bind \<open>importTarget e src info = Some p\<close> nst Some rc
            by (simp add: Let_def split: outcome.splits option.splits)
          show ?thesis
          proof (cases out)
            case OutOfFuel
            then show ?thesis using nf by simp
          next
            case Threw
            then show ?thesis using step by simp
          next
            case (Returned ro)
            show ?thesis
            proof (cases ro)
              case (Some ri)
              then show ?thesis using step Returned by simp
            next
              case None
              then have g: "dom ?st1 \<subseteq> dom st2" using grow Returned by simp
              then have "unvisited e st2 \<le> unvisited e ?st1"
                using fin by (intro unvisited_mono)
              then have "unvisited e st2 \<le> k" using ltk by simp
              from Cons.IH [OF this] have
                "fst (resolveImports rec e src ty info items st2) \<noteq> Some OutOfFuel
                 \<and> (fst (resolveImports rec e src ty info items st2) \<in> {None, Some (Returned None)}
                      \<longrightarrow> dom st2 \<subseteq> dom (snd (resolveImports rec e src ty info items st2)))" .
              moreover have "dom stack \<subseteq> dom st2" using g by auto
              ultimately show ?thesis using step Returned None by auto
            qed
          qed
        qed
      qed
    qed
  qed
qed

lemma resolveCode_returns:
  fixes stack :: stack
  assumes fin: "finite {p. loadSource e p \<noteq> None}"
      and rec: "returnsWithin e k rec"
      and m: "unvisited e stack \<le> k"
  shows "fst (resolveCode rec e src ty cs stack) \<noteq> OutOfFuel
       \<and> (fst (resolveCode rec e src ty cs stack) = Returned None
            \<longrightarrow> dom stack \<subseteq> dom (snd (resolveCode rec e src ty cs stack)))"
  using m
proof (induction cs arbitrary: stack)
  case Nil
  then show ?case by simp
next
  case (Cons i cs)
  obtain ro st1 where ri: "(if kind i = Import
            then resolveImports rec e src ty i (importItems i) stack
            else (None, stack)) = (ro, st1)"
    by (cases "if kind i = Import
            then resolveImports rec e src ty i (importItems i) stack
            else (None, stack)")
  have imp: "ro \<noteq> Some OutOfFuel \<and> (ro \<in> {None, Some (Returned None)} \<longrightarrow> dom stack \<subseteq> dom st1)"
  proof (cases "kind i = Import")
    case True
    then show ?thesis
      using resolveImports_returns [OF fin rec Cons.prems, of src ty i "importItems i"] ri
      by simp
  next
    case False
    then show ?thesis using ri by auto
  qed
  show ?case
  proof (cases ro)
    case (Some result)
    then show ?thesis using ri imp by auto
  next
    case None
    then have g: "dom stack \<subseteq> dom st1" using imp by simp
    show ?thesis
    proof (cases "localMatch ty i")
      case (Some found)
      then show ?thesis using ri None by simp
    next
      case nm: None
      have "unvisited e st1 \<le> unvisited e stack" using fin g by (rule unvisited_mono)
      then have "unvisited e st1 \<le> k" using Cons.prems by simp
      from Cons.IH [OF this] show ?thesis using ri None nm g by auto
    qed
  qed
qed

lemma resolveType_returnsWithin:
  assumes fin: "finite {p. loadSource e p \<noteq> None}"
  shows "returnsWithin e fuel (resolveType fuel e)"
proof (induction fuel)
  case 0
  then show ?case by (simp add: returnsWithin_def)
next
  case (Suc fuel)
  show ?case
    unfolding returnsWithin_def
  proof (intro allI impI)
    fix s t and st :: stack
    assume "unvisited e st < Suc fuel"
    then have "unvisited e st \<le> fuel" by simp
    from resolveCode_returns [OF fin Suc.IH this, of s t "code s"]
    show "fst (resolveType (Suc fuel) e s t st) \<noteq> OutOfFuel
        \<and> (fst (resolveType (Suc fuel) e s t st) = Returned None
             \<longrightarrow> dom st \<subseteq> dom (snd (resolveType (Suc fuel) e s t st)))"
      by simp
  qed
qed

text \<open>
  The resolver terminates on every project of finitely many files: every nested call puts a
  file on the stack that was not there, and a file stays there unless the resolution succeeds,
  which ends the whole call.  So more budget than there are loadable files off the stack is
  never used up.
\<close>

lemma resolveType_enough_fuel:
  assumes "finite {p. loadSource e p \<noteq> None}"
      and "card ({p. loadSource e p \<noteq> None} - dom stack) < fuel"
  shows "fst (resolveType fuel e sourceInfo type stack) \<noteq> OutOfFuel"
  using resolveType_returnsWithin [OF assms(1), of fuel] assms(2)
  by (simp add: returnsWithin_def unvisited_def)

subsection \<open>Circular imports\<close>

lemma resolveImports_unbound:
  assumes "\<not> list_ex (\<lambda>(item, local). item = ty \<or> local = ty) items"
  shows "resolveImports rec e src ty info items stack = (None, stack)"
  using assms
proof (induction items)
  case Nil
  then show ?case by simp
next
  case (Cons x items)
  obtain item loc where x: "x = (item, loc)" by (cases x)
  have "item \<noteq> ty" "loc \<noteq> ty" using Cons.prems x by simp_all
  then show ?case using Cons x by simp
qed

lemma resolveImports_on_stack:
  fixes stack :: stack
  assumes "importTarget e src info = Some p" and "stack p \<noteq> None"
  shows "resolveImports rec e src ty info items stack = (Some (Returned None), stack)
       \<or> resolveImports rec e src ty info items stack = (None, stack)"
proof (induction items)
  case Nil
  then show ?case by simp
next
  case (Cons x items)
  obtain item loc where x: "x = (item, loc)" by (cases x)
  show ?case
  proof (cases "item = ty \<or> loc = ty")
    case True
    then show ?thesis using assms x by auto
  next
    case False
    then show ?thesis using Cons x by auto
  qed
qed

lemma resolveCode_on_stack:
  fixes stack :: stack
  assumes "\<forall>i\<in>set cs. bindsName ty i \<longrightarrow> (\<exists>p. importTarget e src i = Some p \<and> stack p \<noteq> None)"
      and "\<forall>i\<in>set cs. localMatch ty i = None"
  shows "resolveCode rec e src ty cs stack = (Returned None, stack)"
  using assms
proof (induction cs)
  case Nil
  then show ?case by simp
next
  case (Cons i cs)
  have tl: "resolveCode rec e src ty cs stack = (Returned None, stack)"
    using Cons by simp
  have nl: "localMatch ty i = None" using Cons.prems by simp
  show ?case
  proof (cases "kind i = Import")
    case True
    show ?thesis
    proof (cases "bindsName ty i")
      case binds: True
      then obtain p where "importTarget e src i = Some p" "stack p \<noteq> None"
        using Cons.prems by auto
      from resolveImports_on_stack [of e src i p stack rec ty "importItems i", OF this]
      show ?thesis using True nl tl by auto
    next
      case False
      then have "resolveImports rec e src ty i (importItems i) stack = (None, stack)"
        using True by (intro resolveImports_unbound) (simp add: bindsName_def)
      then show ?thesis using True nl tl by simp
    qed
  next
    case False
    then show ?thesis using nl tl by simp
  qed
qed

lemma resolveImports_failing_target:
  fixes stack :: stack
  assumes tgt: "importTarget e src info = Some p"
      and load: "loadSource e p = Some c"
      and recp: "\<And>item loc st. (item, loc) \<in> set items \<Longrightarrow> item = ty \<or> loc = ty \<Longrightarrow>
                   dom stack \<subseteq> dom st \<Longrightarrow> p \<in> dom st \<Longrightarrow>
                   \<exists>st'. rec \<lparr>path = p, code = c\<rparr> item st = (Returned None, st') \<and> dom st \<subseteq> dom st'"
  shows "\<exists>st'. (resolveImports rec e src ty info items stack = (Some (Returned None), st')
               \<or> resolveImports rec e src ty info items stack = (None, st'))
             \<and> dom stack \<subseteq> dom st'"
  using recp
proof (induction items arbitrary: stack)
  case Nil
  then show ?case by simp
next
  case (Cons x items)
  obtain item loc where x: "x = (item, loc)" by (cases x)
  have IH: "\<exists>st'. (resolveImports rec e src ty info items st = (Some (Returned None), st')
               \<or> resolveImports rec e src ty info items st = (None, st'))
             \<and> dom st \<subseteq> dom st'" if "dom stack \<subseteq> dom st" for st :: stack
  proof (rule Cons.IH)
    fix item' loc' and st0 :: stack
    assume "(item', loc') \<in> set items" "item' = ty \<or> loc' = ty" "dom st \<subseteq> dom st0" "p \<in> dom st0"
    then show "\<exists>st'. rec \<lparr>path = p, code = c\<rparr> item' st0 = (Returned None, st') \<and> dom st0 \<subseteq> dom st'"
      using Cons.prems [of item' loc' st0] that by auto
  qed
  show ?case
  proof (cases "item = ty \<or> loc = ty")
    case False
    then show ?thesis using IH [of stack] x by auto
  next
    case bind: True
    show ?thesis
    proof (cases "stack p \<noteq> None")
      case True
      then show ?thesis using bind tgt x by auto
    next
      case False
      let ?st1 = "stack(p \<mapsto> \<lparr>path = p, code = c\<rparr>)"
      have d1: "dom stack \<subseteq> dom ?st1" by auto
      have "(item, loc) \<in> set (x # items)" using x by simp
      moreover note bind d1
      moreover have "p \<in> dom ?st1" by simp
      ultimately have "\<exists>st'. rec \<lparr>path = p, code = c\<rparr> item ?st1 = (Returned None, st')
                         \<and> dom ?st1 \<subseteq> dom st'"
        by (rule Cons.prems)
      then obtain st2 where
        r: "rec \<lparr>path = p, code = c\<rparr> item ?st1 = (Returned None, st2)" and d2: "dom ?st1 \<subseteq> dom st2"
        by blast
      have "dom stack \<subseteq> dom st2" using d1 d2 by blast
      from IH [OF this] obtain st' where
        "(resolveImports rec e src ty info items st2 = (Some (Returned None), st')
           \<or> resolveImports rec e src ty info items st2 = (None, st'))" "dom st2 \<subseteq> dom st'"
        by blast
      moreover have "resolveImports rec e src ty info (x # items) stack
                       = resolveImports rec e src ty info items st2"
        using bind False tgt load r x by (simp add: Let_def)
      ultimately show ?thesis using d1 d2 by (metis order_trans)
    qed
  qed
qed

lemma requestedNames_Cons:
  "set (requestedNames cs ty) \<subseteq> set (requestedNames (i # cs) ty)"
  by (auto simp: requestedNames_def)

lemma requestedNames_entry:
  assumes "kind i = Import" and "(item, loc) \<in> set (importItems i)" and "item = ty \<or> loc = ty"
  shows "item \<in> set (requestedNames (i # cs) ty)"
  using assms by (force simp: requestedNames_def)

lemma resolveCode_failing_target:
  fixes stack :: stack
  assumes tgt: "\<forall>i\<in>set cs. bindsName ty i \<longrightarrow> importTarget e src i = Some p"
      and load: "loadSource e p = Some c"
      and nl: "\<forall>i\<in>set cs. localMatch ty i = None"
      and recp: "\<And>item st. item \<in> set (requestedNames cs ty) \<Longrightarrow> dom stack \<subseteq> dom st \<Longrightarrow>
                   p \<in> dom st \<Longrightarrow>
                   \<exists>st'. rec \<lparr>path = p, code = c\<rparr> item st = (Returned None, st') \<and> dom st \<subseteq> dom st'"
  shows "\<exists>st'. resolveCode rec e src ty cs stack = (Returned None, st') \<and> dom stack \<subseteq> dom st'"
  using tgt nl recp
proof (induction cs arbitrary: stack)
  case Nil
  then show ?case by simp
next
  case (Cons i cs)
  have nli: "localMatch ty i = None" using Cons.prems(2) by simp
  have IH: "\<exists>st'. resolveCode rec e src ty cs st = (Returned None, st') \<and> dom st \<subseteq> dom st'"
    if "dom stack \<subseteq> dom st" for st :: stack
  proof (rule Cons.IH)
    show "\<forall>i\<in>set cs. bindsName ty i \<longrightarrow> importTarget e src i = Some p"
      using Cons.prems(1) by simp
    show "\<forall>i\<in>set cs. localMatch ty i = None" using Cons.prems(2) by simp
    fix item and st0 :: stack
    assume a: "item \<in> set (requestedNames cs ty)" "dom st \<subseteq> dom st0" "p \<in> dom st0"
    have "item \<in> set (requestedNames (i # cs) ty)" using a(1) requestedNames_Cons by blast
    then show "\<exists>st'. rec \<lparr>path = p, code = c\<rparr> item st0 = (Returned None, st') \<and> dom st0 \<subseteq> dom st'"
      using Cons.prems(3) [of item st0] a that by auto
  qed
  show ?case
  proof (cases "kind i = Import")
    case False
    then show ?thesis using nli IH [of stack] by simp
  next
    case True
    have "\<exists>st'. (resolveImports rec e src ty i (importItems i) stack = (Some (Returned None), st')
               \<or> resolveImports rec e src ty i (importItems i) stack = (None, st'))
             \<and> dom stack \<subseteq> dom st'"
    proof (cases "bindsName ty i")
      case False
      then have "resolveImports rec e src ty i (importItems i) stack = (None, stack)"
        using True by (intro resolveImports_unbound) (simp add: bindsName_def)
      then show ?thesis by auto
    next
      case binds: True
      then have t: "importTarget e src i = Some p" using Cons.prems(1) by simp
      show ?thesis
      proof (rule resolveImports_failing_target [OF t load])
        fix item loc and st :: stack
        assume a: "(item, loc) \<in> set (importItems i)" "item = ty \<or> loc = ty"
          "dom stack \<subseteq> dom st" "p \<in> dom st"
        have "item \<in> set (requestedNames (i # cs) ty)"
          using True a(1,2) by (rule requestedNames_entry)
        then show "\<exists>st'. rec \<lparr>path = p, code = c\<rparr> item st = (Returned None, st') \<and> dom st \<subseteq> dom st'"
          using Cons.prems(3) [of item st] a by auto
      qed
    qed
    then obtain st1 where
      r: "resolveImports rec e src ty i (importItems i) stack = (Some (Returned None), st1)
           \<or> resolveImports rec e src ty i (importItems i) stack = (None, st1)"
      and d: "dom stack \<subseteq> dom st1" by blast
    from IH [OF d] obtain st' where
      r2: "resolveCode rec e src ty cs st1 = (Returned None, st')" and d2: "dom st1 \<subseteq> dom st'"
      by blast
    from r show ?thesis
    proof
      assume "resolveImports rec e src ty i (importItems i) stack = (Some (Returned None), st1)"
      then show ?thesis using True d by simp
    next
      assume "resolveImports rec e src ty i (importItems i) stack = (None, st1)"
      then have "resolveCode rec e src ty (i # cs) stack = (Returned None, st')"
        using True nli r2 by simp
      then show ?thesis using d d2 by (metis order_trans)
    qed
  qed
qed

text \<open>
  C1.  File A (path \<open>pa\<close>) and file B (path \<open>pb\<close>) exist and import from each other as far
  as the query goes.  The names the resolver asks for are: in A the queried name; in B the keys
  of the import entries of A that bind it; and back in A the keys of the import entries of B
  that bind those.  The import records of A that bind a name asked for in A lead to B, those
  of B that bind a name asked for in B lead to A, and neither file declares a name asked for
  in it.  What the files import or declare under other names is free.  Then \<open>resolveType\<close>
  on A, started with the empty stack, returns \<open>undefined\<close>: it neither runs on (three nested
  calls are enough, whatever the files contain), nor throws, nor finds a record.  The circular
  branch ends without a further call: an import entry that binds the name and leads to a path
  on the stack makes the loop return \<open>undefined\<close> at once, whatever the recursive call would
  do, the stack unchanged.
\<close>

theorem resolveType_circular_imports_return_none:
  assumes loadA: "loadSource e pa = Some codeA"
      and loadB: "loadSource e pb = Some codeB"
      and AtoB: "\<forall>n\<in>set (type # concat (map (requestedNames codeB) (requestedNames codeA type))).
                   \<forall>i\<in>set codeA. bindsName n i \<longrightarrow>
                     importTarget e \<lparr>path = pa, code = codeA\<rparr> i = Some pb"
      and BtoA: "\<forall>n\<in>set (requestedNames codeA type).
                   \<forall>i\<in>set codeB. bindsName n i \<longrightarrow>
                     importTarget e \<lparr>path = pb, code = codeB\<rparr> i = Some pa"
      and undeclaredA:
            "\<forall>n\<in>set (type # concat (map (requestedNames codeB) (requestedNames codeA type))).
               \<forall>i\<in>set codeA. localMatch n i = None"
      and undeclaredB: "\<forall>n\<in>set (requestedNames codeA type). \<forall>i\<in>set codeB. localMatch n i = None"
      and fuel: "3 \<le> fuel"
  shows "fst (resolveType fuel e \<lparr>path = pa, code = codeA\<rparr> type Map.empty) = Returned None
       \<and> (\<forall>rec src info item loc rest p ty. \<forall>st :: stack.
            (item = ty \<or> loc = ty) \<and> importTarget e src info = Some p \<and> st p \<noteq> None \<longrightarrow>
            resolveImports rec e src ty info ((item, loc) # rest) st = (Some (Returned None), st))"
proof -
  let ?A = "\<lparr>path = pa, code = codeA\<rparr>" and ?B = "\<lparr>path = pb, code = codeB\<rparr>"
  obtain n where n: "fuel = Suc (Suc (Suc n))"
    using fuel by (metis Suc_le_D numeral_3_eq_3 Suc_le_mono)
  have level2: "resolveType (Suc n) e ?A item' st = (Returned None, st)"
    if "item \<in> set (requestedNames codeA type)" "item' \<in> set (requestedNames codeB item)"
       "pb \<in> dom st" for item item' and st :: stack
  proof -
    have asked: "item' \<in> set (type # concat (map (requestedNames codeB) (requestedNames codeA type)))"
      using that(1,2) by auto
    have "resolveCode (resolveType n e) e ?A item' codeA st = (Returned None, st)"
    proof (rule resolveCode_on_stack)
      show "\<forall>i\<in>set codeA. bindsName item' i \<longrightarrow>
              (\<exists>p. importTarget e ?A i = Some p \<and> st p \<noteq> None)"
        using AtoB asked that(3) by blast
      show "\<forall>i\<in>set codeA. localMatch item' i = None"
        using undeclaredA asked by blast
    qed
    then show ?thesis by simp
  qed
  have level1: "\<exists>st'. resolveType (Suc (Suc n)) e ?B item st = (Returned None, st') \<and> dom st \<subseteq> dom st'"
    if "item \<in> set (requestedNames codeA type)" "pb \<in> dom st" for item and st :: stack
  proof -
    have "\<exists>st'. resolveCode (resolveType (Suc n) e) e ?B item codeB st = (Returned None, st')
            \<and> dom st \<subseteq> dom st'"
    proof (rule resolveCode_failing_target [OF _ loadA])
      show "\<forall>i\<in>set codeB. bindsName item i \<longrightarrow> importTarget e ?B i = Some pa"
        using BtoA that(1) by blast
      show "\<forall>i\<in>set codeB. localMatch item i = None" using undeclaredB that(1) by blast
      fix item' and st0 :: stack
      assume a: "item' \<in> set (requestedNames codeB item)" "dom st \<subseteq> dom st0" "pa \<in> dom st0"
      have "pb \<in> dom st0" using a(2) that(2) by blast
      from level2 [OF that(1) a(1) this]
      show "\<exists>st'. resolveType (Suc n) e ?A item' st0 = (Returned None, st') \<and> dom st0 \<subseteq> dom st'"
        by simp
    qed
    then show ?thesis by simp
  qed
  have "\<exists>st'. resolveCode (resolveType (Suc (Suc n)) e) e ?A type codeA Map.empty = (Returned None, st')
          \<and> dom (Map.empty :: stack) \<subseteq> dom st'"
  proof (rule resolveCode_failing_target [OF _ loadB])
    show "\<forall>i\<in>set codeA. bindsName type i \<longrightarrow> importTarget e ?A i = Some pb"
      using AtoB by simp
    show "\<forall>i\<in>set codeA. localMatch type i = None" using undeclaredA by simp
    fix item and st :: stack
    assume "item \<in> set (requestedNames codeA type)" "dom (Map.empty :: stack) \<subseteq> dom st" "pb \<in> dom st"
    then show "\<exists>st'. resolveType (Suc (Suc n)) e ?B item st = (Returned None, st') \<and> dom st \<subseteq> dom st'"
      using level1 by blast
  qed
  then have none: "fst (resolveType fuel e ?A type Map.empty) = Returned None"
    using n by auto
  have short: "\<forall>rec src info item loc rest p ty. \<forall>st :: stack.
            (item = ty \<or> loc = ty) \<and> importTarget e src info = Some p \<and> st p \<noteq> None \<longrightarrow>
            resolveImports rec e src ty info ((item, loc) # rest) st = (Some (Returned None), st)"
    by (intro allI impI) (simp split: if_splits)
  from none short show ?thesis by (rule conjI)
qed

theorem resolveType_circular_imports_return_none_witness:
  "fst (resolveType 3
          (projectEnv
             [(''/src/a.ts'', [importInfo ''./b.js'' [(''Foo'', ''Foo''), (''Helper'', ''Helper'')],
                               importInfo ''./c.js'' [(''Tool'', ''Tool'')]]),
              (''/src/b.ts'', [importInfo ''./a.js'' [(''Foo'', ''Foo'')],
                               classInfo ''Helper'' None []]),
              (''/src/c.ts'', [classInfo ''Tool'' None []])])
          \<lparr>path = ''/src/a.ts'',
           code = [importInfo ''./b.js'' [(''Foo'', ''Foo''), (''Helper'', ''Helper'')],
                   importInfo ''./c.js'' [(''Tool'', ''Tool'')]]\<rparr>
          ''Foo'' Map.empty)
     = Returned None"
  by (rule resolveType_circular_imports_return_none [where pb = "''/src/b.ts''"
        and codeB = "[importInfo ''./a.js'' [(''Foo'', ''Foo'')], classInfo ''Helper'' None []]",
        THEN conjunct1])
     (simp_all add: fixture_defs)

subsection \<open>Records are examined in list order\<close>

lemma resolveCode_skip:
  assumes "\<forall>i\<in>set pre. \<not> bindsName ty i \<and> localMatch ty i = None"
  shows "resolveCode rec e src ty (pre @ rest) stack = resolveCode rec e src ty rest stack"
  using assms
proof (induction pre)
  case Nil
  then show ?case by simp
next
  case (Cons i pre)
  have "kind i = Import \<Longrightarrow> resolveImports rec e src ty i (importItems i) stack = (None, stack)"
    using Cons.prems by (intro resolveImports_unbound) (simp add: bindsName_def)
  then show ?case using Cons by simp
qed

lemma localMatch_not_Import: "localMatch ty d = Some found \<Longrightarrow> kind d \<noteq> Import"
  by (auto simp: localMatch_def)

lemma resolveImports_skip:
  assumes "\<not> list_ex (\<lambda>(item, local). item = ty \<or> local = ty) ipre"
  shows "resolveImports rec e src ty info (ipre @ rest) stack
           = resolveImports rec e src ty info rest stack"
  using assms
proof (induction ipre)
  case Nil
  then show ?case by simp
next
  case (Cons x ipre)
  obtain item loc where x: "x = (item, loc)" by (cases x)
  have "item \<noteq> ty" "loc \<noteq> ty" using Cons.prems x by simp_all
  then show ?case using Cons x by simp
qed

text \<open>
  C2, as the code has it.  \<open>resolveType\<close> examines the records of \<open>sourceInfo.code\<close> in list
  order, in one pass, and the first record that resolves the name wins.  When the first record
  that concerns the name is a local declaration (no earlier record binds or declares the
  name), that declaration is returned, whatever import records follow it.  When it is an import
  record whose first binding entry leads to a file in which the recursive resolution succeeds,
  the import is followed, whatever declarations follow it.
\<close>

theorem resolveType_first_record_in_list_order_wins:
  "(code src = pre @ d # rest
      \<and> (\<forall>i\<in>set pre. \<not> bindsName type i \<and> localMatch type i = None)
      \<and> localMatch type d = Some found
    \<longrightarrow> resolveType (Suc fuel) e src type stack
          = (Returned (Some (Resolved (path src) found (path src) type)), stack))
   \<and> (code src = pre @ imp # rest
      \<and> (\<forall>i\<in>set pre. \<not> bindsName type i \<and> localMatch type i = None)
      \<and> kind imp = Import
      \<and> importItems imp = ipre @ (item, loc) # irest
      \<and> \<not> list_ex (\<lambda>(item, local). item = type \<or> local = type) ipre
      \<and> (item = type \<or> loc = type)
      \<and> importTarget e src imp = Some p
      \<and> stack p = None
      \<and> loadSource e p = Some c
      \<and> resolveType fuel e \<lparr>path = p, code = c\<rparr> item (stack(p \<mapsto> \<lparr>path = p, code = c\<rparr>))
            = (Returned (Some r'), stack')
    \<longrightarrow> fst (resolveType (Suc fuel) e src type stack)
          = Returned (Some (Resolved (path src) (r_resolvedInfo r') (r_path r') type)))"
proof (intro conjI impI)
  assume a: "code src = pre @ d # rest
      \<and> (\<forall>i\<in>set pre. \<not> bindsName type i \<and> localMatch type i = None)
      \<and> localMatch type d = Some found"
  then have "kind d \<noteq> Import" by (auto dest: localMatch_not_Import)
  then have "resolveCode (resolveType fuel e) e src type (d # rest) stack
               = (Returned (Some (Resolved (path src) found (path src) type)), stack)"
    using a by simp
  then show "resolveType (Suc fuel) e src type stack
          = (Returned (Some (Resolved (path src) found (path src) type)), stack)"
    using a by (simp add: resolveCode_skip)
next
  assume a: "code src = pre @ imp # rest
      \<and> (\<forall>i\<in>set pre. \<not> bindsName type i \<and> localMatch type i = None)
      \<and> kind imp = Import
      \<and> importItems imp = ipre @ (item, loc) # irest
      \<and> \<not> list_ex (\<lambda>(item, local). item = type \<or> local = type) ipre
      \<and> (item = type \<or> loc = type)
      \<and> importTarget e src imp = Some p
      \<and> stack p = None
      \<and> loadSource e p = Some c
      \<and> resolveType fuel e \<lparr>path = p, code = c\<rparr> item (stack(p \<mapsto> \<lparr>path = p, code = c\<rparr>))
            = (Returned (Some r'), stack')"
  have "resolveImports (resolveType fuel e) e src type imp ((item, loc) # irest) stack
          = (Some (Returned (Some (Resolved (path src) (r_resolvedInfo r') (r_path r') type))),
             stack'(p := None))"
    using a by (simp add: Let_def)
  then have "resolveImports (resolveType fuel e) e src type imp (importItems imp) stack
          = (Some (Returned (Some (Resolved (path src) (r_resolvedInfo r') (r_path r') type))),
             stack'(p := None))"
    using a by (simp add: resolveImports_skip)
  then have "resolveCode (resolveType fuel e) e src type (imp # rest) stack
          = (Returned (Some (Resolved (path src) (r_resolvedInfo r') (r_path r') type)),
             stack'(p := None))"
    using a by simp
  then show "fst (resolveType (Suc fuel) e src type stack)
          = Returned (Some (Resolved (path src) (r_resolvedInfo r') (r_path r') type))"
    using a by (simp add: resolveCode_skip)
qed

theorem resolveType_first_record_in_list_order_wins_witness:
  "resolveType (Suc 0) (projectEnv [(''/src/other.ts'', [classInfo ''Foo'' None [propertyInfo ''imported'']])])
      \<lparr>path = ''/src/main.ts'',
       code = [classInfo ''Foo'' None [propertyInfo ''local''],
               importInfo ''./other.js'' [(''Foo'', ''Foo'')]]\<rparr>
      ''Foo'' Map.empty
     = (Returned (Some (Resolved ''/src/main.ts'' (classInfo ''Foo'' None [propertyInfo ''local''])
          ''/src/main.ts'' ''Foo'')), Map.empty)
   \<and> fst (resolveType (Suc (Suc 0))
          (projectEnv [(''/src/other.ts'', [classInfo ''Foo'' None [propertyInfo ''imported'']])])
          \<lparr>path = ''/src/main.ts'',
           code = [importInfo ''./other.js'' [(''Foo'', ''Foo'')],
                   classInfo ''Foo'' None [propertyInfo ''local'']]\<rparr>
          ''Foo'' Map.empty)
     = Returned (Some (Resolved ''/src/main.ts'' (classInfo ''Foo'' None [propertyInfo ''imported''])
          ''/src/other.ts'' ''Foo''))"
proof
  show "resolveType (Suc 0) (projectEnv [(''/src/other.ts'', [classInfo ''Foo'' None [propertyInfo ''imported'']])])
      \<lparr>path = ''/src/main.ts'',
       code = [classInfo ''Foo'' None [propertyInfo ''local''],
               importInfo ''./other.js'' [(''Foo'', ''Foo'')]]\<rparr>
      ''Foo'' Map.empty
     = (Returned (Some (Resolved ''/src/main.ts'' (classInfo ''Foo'' None [propertyInfo ''local''])
          ''/src/main.ts'' ''Foo'')), Map.empty)"
    using resolveType_first_record_in_list_order_wins
      [where pre = "[]"
        and src = "\<lparr>path = ''/src/main.ts'',
                   code = [classInfo ''Foo'' None [propertyInfo ''local''],
                           importInfo ''./other.js'' [(''Foo'', ''Foo'')]]\<rparr>"
        and d = "classInfo ''Foo'' None [propertyInfo ''local'']"
        and rest = "[importInfo ''./other.js'' [(''Foo'', ''Foo'')]]"
        and type = "''Foo''"
        and found = "classInfo ''Foo'' None [propertyInfo ''local'']"
        and fuel = 0, THEN conjunct1, THEN mp]
    by (simp add: fixture_defs)
next
  let ?e = "projectEnv [(''/src/other.ts'', [classInfo ''Foo'' None [propertyInfo ''imported'']])]"
  let ?other = "\<lparr>path = ''/src/other.ts'', code = [classInfo ''Foo'' None [propertyInfo ''imported'']]\<rparr>"
  have rec: "resolveType (Suc 0) ?e ?other ''Foo'' (Map.empty(''/src/other.ts'' \<mapsto> ?other))
        = (Returned (Some (Resolved ''/src/other.ts'' (classInfo ''Foo'' None [propertyInfo ''imported''])
             ''/src/other.ts'' ''Foo'')), Map.empty(''/src/other.ts'' \<mapsto> ?other))"
    by (simp add: fixture_defs)
  show "fst (resolveType (Suc (Suc 0)) ?e
          \<lparr>path = ''/src/main.ts'',
           code = [importInfo ''./other.js'' [(''Foo'', ''Foo'')],
                   classInfo ''Foo'' None [propertyInfo ''local'']]\<rparr>
          ''Foo'' Map.empty)
     = Returned (Some (Resolved ''/src/main.ts'' (classInfo ''Foo'' None [propertyInfo ''imported''])
          ''/src/other.ts'' ''Foo''))"
    using resolveType_first_record_in_list_order_wins
      [where pre = "[]"
        and src = "\<lparr>path = ''/src/main.ts'',
                   code = [importInfo ''./other.js'' [(''Foo'', ''Foo'')],
                           classInfo ''Foo'' None [propertyInfo ''local'']]\<rparr>"
        and imp = "importInfo ''./other.js'' [(''Foo'', ''Foo'')]"
        and rest = "[classInfo ''Foo'' None [propertyInfo ''local'']]"
        and type = "''Foo''" and ipre = "[]" and item = "''Foo''" and loc = "''Foo''"
        and irest = "[]" and e = ?e and p = "''/src/other.ts''" and stack = Map.empty
        and c = "[classInfo ''Foo'' None [propertyInfo ''imported'']]"
        and fuel = "Suc 0"
        and r' = "Resolved ''/src/other.ts'' (classInfo ''Foo'' None [propertyInfo ''imported''])
             ''/src/other.ts'' ''Foo''"
        and stack' = "Map.empty(''/src/other.ts'' \<mapsto> ?other)", THEN conjunct2, THEN mp]
      rec
    by (simp add: fixture_defs)
qed

text \<open>
  The claim as stated fails: with a class \<open>Foo\<close> declared before an import that binds
  \<open>Foo\<close>, the local class is returned and the import is not followed, although the imported
  file declares \<open>Foo\<close> too.
\<close>

theorem resolveType_local_declaration_before_import:
  "bindsName ''Foo'' (importInfo ''./other.js'' [(''Foo'', ''Foo'')])
   \<and> fst (resolveType 3
          (projectEnv [(''/src/other.ts'', [classInfo ''Foo'' None [propertyInfo ''imported'']])])
          \<lparr>path = ''/src/main.ts'',
           code = [classInfo ''Foo'' None [propertyInfo ''local''],
                   importInfo ''./other.js'' [(''Foo'', ''Foo'')]]\<rparr>
          ''Foo'' Map.empty)
     = Returned (Some (Resolved ''/src/main.ts'' (classInfo ''Foo'' None [propertyInfo ''local''])
          ''/src/main.ts'' ''Foo''))
   \<and> fst (resolveType 3
          (projectEnv [(''/src/other.ts'', [classInfo ''Foo'' None [propertyInfo ''imported'']])])
          \<lparr>path = ''/src/main.ts'',
           code = [importInfo ''./other.js'' [(''Foo'', ''Foo'')]]\<rparr>
          ''Foo'' Map.empty)
     = Returned (Some (Resolved ''/src/main.ts'' (classInfo ''Foo'' None [propertyInfo ''imported''])
          ''/src/other.ts'' ''Foo''))"
  by (simp add: fixture_defs numeral_3_eq_3)

subsection \<open>What a successful resolution returns\<close>

lemma localMatch_SomeD:
  assumes "localMatch ty d = Some x"
  shows "(kind d \<in> {Class, Interface, Object, Variable} \<and> x = d \<and> name d = Some ty)
       \<or> (kind d = Export \<and> object d = Some x \<and> (name d = Some ty \<or> name x = Some ty))"
  using assms by (cases "kind d") (auto simp: localMatch_def split: option.splits if_splits)

lemma resolveImports_sound:
  fixes stack :: stack
  assumes recs: "\<And>s t st r st'. rec s t st = (Returned (Some r), st')
                   \<Longrightarrow> r_path r = path s \<and> locatedFrom e s t (r_resolvedInfo r)"
      and res: "resolveImports rec e src ty info items stack = (Some (Returned (Some r)), st')"
      and mem: "info \<in> set (code src)" "kind info = Import" "set items \<subseteq> set (importItems info)"
  shows "r_path r = path src \<and> r_type r = ty \<and> locatedFrom e src ty (r_resolvedInfo r)"
  using res mem(3)
proof (induction items arbitrary: stack)
  case Nil
  then show ?case by simp
next
  case (Cons x items)
  obtain item loc where x: "x = (item, loc)" by (cases x)
  have sub: "set items \<subseteq> set (importItems info)" using Cons.prems(2) by simp
  have xin: "(item, loc) \<in> set (importItems info)" using Cons.prems(2) x by simp
  show ?case
  proof (cases "item = ty \<or> loc = ty")
    case False
    then have "resolveImports rec e src ty info items stack = (Some (Returned (Some r)), st')"
      using Cons.prems(1) x by simp
    from Cons.IH [OF this sub] show ?thesis .
  next
    case bind: True
    show ?thesis
    proof (cases "importTarget e src info")
      case None
      then have "resolveImports rec e src ty info items stack = (Some (Returned (Some r)), st')"
        using Cons.prems(1) x bind by simp
      from Cons.IH [OF this sub] show ?thesis .
    next
      case (Some p)
      have nst: "stack p = None"
        using Cons.prems(1) x bind Some by (auto split: if_splits)
      obtain c where c: "loadSource e p = Some c"
        using Cons.prems(1) x bind Some nst by (cases "loadSource e p") auto
      let ?s = "\<lparr>path = p, code = c\<rparr>"
      obtain out st2 where rc: "rec ?s item (stack(p \<mapsto> ?s)) = (out, st2)"
        by (cases "rec ?s item (stack(p \<mapsto> ?s))")
      have step: "resolveImports rec e src ty info (x # items) stack =
         (case out of OutOfFuel \<Rightarrow> (Some OutOfFuel, st2)
          | Threw \<Rightarrow> (Some Threw, st2)
          | Returned None \<Rightarrow> resolveImports rec e src ty info items st2
          | Returned (Some ri) \<Rightarrow>
              (Some (Returned (Some (Resolved (path src) (r_resolvedInfo ri) (r_path ri) ty))),
               st2(p := None)))"
        using x bind Some nst c rc by (simp add: Let_def split: outcome.splits option.splits)
      show ?thesis
      proof (cases out)
        case OutOfFuel
        then show ?thesis using step Cons.prems(1) by simp
      next
        case Threw
        then show ?thesis using step Cons.prems(1) by simp
      next
        case (Returned ro)
        show ?thesis
        proof (cases ro)
          case None
          then have "resolveImports rec e src ty info items st2 = (Some (Returned (Some r)), st')"
            using step Cons.prems(1) Returned by simp
          from Cons.IH [OF this sub] show ?thesis .
        next
          case (Some ri)
          then have r: "r = Resolved (path src) (r_resolvedInfo ri) (r_path ri) ty"
            using step Cons.prems(1) Returned by simp
          have "locatedFrom e ?s item (r_resolvedInfo ri)"
            using recs [of ?s item "stack(p \<mapsto> ?s)" ri st2] rc Returned Some by simp
          then obtain src' ty' d where f: "follows e ?s item src' ty'" "d \<in> set (code src')"
            "localMatch ty' d = Some (r_resolvedInfo ri)"
            by (auto simp: locatedFrom_def)
          have "follows e src ty src' ty'"
            using mem(1,2) xin bind \<open>importTarget e src info = Some p\<close> c f(1)
            by (rule follows.hop)
          then show ?thesis using r f by (auto simp: locatedFrom_def)
        qed
      qed
    qed
  qed
qed

lemma resolveCode_sound:
  fixes stack :: stack
  assumes recs: "\<And>s t st r st'. rec s t st = (Returned (Some r), st')
                   \<Longrightarrow> r_path r = path s \<and> locatedFrom e s t (r_resolvedInfo r)"
      and res: "resolveCode rec e src ty cs stack = (Returned (Some r), st')"
      and sub: "set cs \<subseteq> set (code src)"
  shows "r_path r = path src \<and> r_type r = ty \<and> locatedFrom e src ty (r_resolvedInfo r)"
  using res sub
proof (induction cs arbitrary: stack)
  case Nil
  then show ?case by simp
next
  case (Cons i cs)
  have iin: "i \<in> set (code src)" and sub': "set cs \<subseteq> set (code src)"
    using Cons.prems(2) by simp_all
  obtain ro st1 where ri: "(if kind i = Import
            then resolveImports rec e src ty i (importItems i) stack
            else (None, stack)) = (ro, st1)"
    by (cases "if kind i = Import
            then resolveImports rec e src ty i (importItems i) stack
            else (None, stack)")
  show ?case
  proof (cases ro)
    case (Some result)
    then have "result = Returned (Some r)" "st1 = st'" using Cons.prems(1) ri by simp_all
    then have "kind i = Import"
      "resolveImports rec e src ty i (importItems i) stack = (Some (Returned (Some r)), st')"
      using ri Some by (auto split: if_splits)
    from resolveImports_sound [OF recs this(2) iin this(1)] show ?thesis by simp
  next
    case None
    show ?thesis
    proof (cases "localMatch ty i")
      case (Some found)
      then have "r = Resolved (path src) found (path src) ty"
        using Cons.prems(1) ri None by simp
      moreover have "locatedFrom e src ty found"
        using Some iin follows.here [of e src ty] by (auto simp: locatedFrom_def)
      ultimately show ?thesis by simp
    next
      case nm: None
      then have "resolveCode rec e src ty cs st1 = (Returned (Some r), st')"
        using Cons.prems(1) ri None by simp
      from Cons.IH [OF this sub'] show ?thesis .
    qed
  qed
qed

lemma resolveType_sound:
  "resolveType fuel e src ty stack = (Returned (Some r), st')
     \<Longrightarrow> r_path r = path src \<and> r_type r = ty \<and> locatedFrom e src ty (r_resolvedInfo r)"
proof (induction fuel arbitrary: src ty stack r st')
  case 0
  then show ?case by simp
next
  case (Suc fuel)
  have "resolveCode (resolveType fuel e) e src ty (code src) stack = (Returned (Some r), st')"
    using Suc.prems by simp
  moreover have "\<And>s t st r st'. resolveType fuel e s t st = (Returned (Some r), st')
                   \<Longrightarrow> r_path r = path s \<and> locatedFrom e s t (r_resolvedInfo r)"
    using Suc.IH by blast
  ultimately show ?case by (intro resolveCode_sound [where rec = "resolveType fuel e"]) auto
qed

lemma resolveCode_local:
  fixes stack :: stack
  assumes "\<forall>i\<in>set cs. \<not> bindsName ty i"
      and "resolveCode rec e src ty cs stack = (Returned (Some r), st')"
  shows "r_resolvedPath r = path src \<and> (\<exists>d\<in>set cs. localMatch ty d = Some (r_resolvedInfo r))"
  using assms
proof (induction cs)
  case Nil
  then show ?case by simp
next
  case (Cons i cs)
  have ri: "(if kind i = Import then resolveImports rec e src ty i (importItems i) stack
             else (None, stack)) = (None, stack)"
    using Cons.prems(1) by (auto simp: bindsName_def intro: resolveImports_unbound)
  show ?case
  proof (cases "localMatch ty i")
    case None
    then have "resolveCode rec e src ty cs stack = (Returned (Some r), st')"
      using Cons.prems(2) ri by simp
    then show ?thesis using Cons by simp
  next
    case (Some found)
    then have "r = Resolved (path src) found (path src) ty"
      using Cons.prems(2) ri by simp
    then show ?thesis using Some by simp
  qed
qed

text \<open>
  C3, as the code has it.  When \<open>resolveType\<close> succeeds, \<open>path\<close> and \<open>type\<close> of the result
  are those of the outer query, and \<open>resolvedInfo\<close> is a declaration of a file reached from the
  queried file by following import records that bind the name: a Class, Interface, Object or
  Variable record literally named by the name queried there, or the object of an Export record
  whose name, or whose object's name, is that name.  The name queried there is the queried name
  itself in the starting file and, after an import, the key of the import entry (the original
  exported name).  When no import record of the queried file binds the name, the declaration is
  one of the queried file and \<open>resolvedPath\<close> is that file's path.
\<close>

theorem resolveType_success_locates_declaration:
  assumes "resolveType fuel e src type stack = (Returned (Some r), stack')"
  shows "r_path r = path src \<and> r_type r = type
       \<and> (\<exists>src' type' d. follows e src type src' type' \<and> d \<in> set (code src')
             \<and> ((kind d \<in> {Class, Interface, Object, Variable} \<and> r_resolvedInfo r = d
                   \<and> name d = Some type')
                \<or> (kind d = Export \<and> object d = Some (r_resolvedInfo r)
                   \<and> (name d = Some type' \<or> name (r_resolvedInfo r) = Some type'))))
       \<and> ((\<forall>i\<in>set (code src). \<not> bindsName type i) \<longrightarrow>
             r_resolvedPath r = path src
             \<and> (\<exists>d\<in>set (code src). localMatch type d = Some (r_resolvedInfo r)))"
proof -
  from resolveType_sound [OF assms]
  have a: "r_path r = path src" "r_type r = type" and l: "locatedFrom e src type (r_resolvedInfo r)"
    by simp_all
  from l obtain src' type' d where f: "follows e src type src' type'" "d \<in> set (code src')"
    "localMatch type' d = Some (r_resolvedInfo r)"
    by (auto simp: locatedFrom_def)
  from localMatch_SomeD [OF f(3)] f(1,2)
  have b: "\<exists>src' type' d. follows e src type src' type' \<and> d \<in> set (code src')
             \<and> ((kind d \<in> {Class, Interface, Object, Variable} \<and> r_resolvedInfo r = d
                   \<and> name d = Some type')
                \<or> (kind d = Export \<and> object d = Some (r_resolvedInfo r)
                   \<and> (name d = Some type' \<or> name (r_resolvedInfo r) = Some type')))"
    by blast
  have c: "r_resolvedPath r = path src
             \<and> (\<exists>d\<in>set (code src). localMatch type d = Some (r_resolvedInfo r))"
    if "\<forall>i\<in>set (code src). \<not> bindsName type i"
  proof -
    obtain n where "fuel = Suc n" using assms by (cases fuel) auto
    then have "resolveCode (resolveType n e) e src type (code src) stack = (Returned (Some r), stack')"
      using assms by simp
    from resolveCode_local [OF that this] show ?thesis .
  qed
  from a b c show ?thesis by blast
qed

theorem resolveType_success_locates_declaration_witness:
  "r_path (Resolved ''/src/main.ts'' (classInfo ''Foo'' None []) ''/src/main.ts'' ''Foo'') = ''/src/main.ts''
   \<and> r_type (Resolved ''/src/main.ts'' (classInfo ''Foo'' None []) ''/src/main.ts'' ''Foo'') = ''Foo''
   \<and> r_resolvedPath (Resolved ''/src/main.ts'' (classInfo ''Foo'' None []) ''/src/main.ts'' ''Foo'')
       = ''/src/main.ts''
   \<and> resolveType 1 (projectEnv [])
        \<lparr>path = ''/src/main.ts'', code = [importInfo ''./other.js'' [(''Bar'', ''Baz'')], classInfo ''Foo'' None []]\<rparr>
        ''Foo'' Map.empty
      = (Returned (Some (Resolved ''/src/main.ts'' (classInfo ''Foo'' None []) ''/src/main.ts'' ''Foo'')),
         Map.empty)"
proof -
  have run: "resolveType 1 (projectEnv [])
        \<lparr>path = ''/src/main.ts'', code = [importInfo ''./other.js'' [(''Bar'', ''Baz'')], classInfo ''Foo'' None []]\<rparr>
        ''Foo'' Map.empty
      = (Returned (Some (Resolved ''/src/main.ts'' (classInfo ''Foo'' None []) ''/src/main.ts'' ''Foo'')),
         Map.empty)"
    by (simp add: fixture_defs)
  have unbound: "\<forall>i\<in>set (code \<lparr>path = ''/src/main.ts'',
        code = [importInfo ''./other.js'' [(''Bar'', ''Baz'')], classInfo ''Foo'' None []]\<rparr>).
      \<not> bindsName ''Foo'' i"
    by (simp add: fixture_defs)
  from resolveType_success_locates_declaration [OF run] unbound run show ?thesis
    by simp
qed

text \<open>
  The claim as stated fails: resolving \<open>Bar\<close> through \<open>import { Foo as Bar }\<close> succeeds, and
  the only declaration of the file at \<open>resolvedPath\<close> is the class named \<open>Foo\<close>; the file has
  no declaration named \<open>Bar\<close>.
\<close>

theorem resolveType_renamed_import_finds_original_name:
  "fst (resolveType 3
          (projectEnv [(''/src/other.ts'', [classInfo ''Foo'' None []])])
          \<lparr>path = ''/src/main.ts'', code = [importInfo ''./other.js'' [(''Foo'', ''Bar'')]]\<rparr>
          ''Bar'' Map.empty)
     = Returned (Some (Resolved ''/src/main.ts'' (classInfo ''Foo'' None []) ''/src/other.ts'' ''Bar''))
   \<and> loadSource (projectEnv [(''/src/other.ts'', [classInfo ''Foo'' None []])]) ''/src/other.ts''
     = Some [classInfo ''Foo'' None []]
   \<and> map name [classInfo ''Foo'' None []] = [Some ''Foo'']
   \<and> map kind [classInfo ''Foo'' None []] = [Class]
   \<and> ''Foo'' \<noteq> ''Bar''"
  by (simp add: fixture_defs numeral_3_eq_3)

section \<open>Properties of the inheritance flattener\<close>

lemma newCodeInfo_same_fields: "newCodeInfo t = t"
proof (induction t)
  case (Info k n ext props imps frm obj inh doc tgs)
  have "map newCodeInfo props = props"
    using Info.IH(1) by (simp add: map_idI)
  moreover have "map_option newCodeInfo obj = obj"
    using Info.IH(2) by (cases obj) simp_all
  moreover have "map_option newCodeInfo doc = doc"
    using Info.IH(3) by (cases doc) simp_all
  ultimately show ?case by simp
qed

lemma name_markInherited [simp]: "name (markInherited p) = name p"
  by (cases p) simp

lemma inherited_markInherited [simp]: "inherited (markInherited p)"
  by (cases p) simp

lemma properties_withProperties [simp]: "properties (withProperties i ps) = ps"
  by (cases i) simp

lemma appendedWhenAbsent_Nil [simp]: "appendedWhenAbsent own []"
  by (simp add: appendedWhenAbsent_def)

lemma appendedWhenAbsent_append:
  assumes "appendedWhenAbsent own a" and "appendedWhenAbsent (own @ a) b"
  shows "appendedWhenAbsent own (a @ b)"
  unfolding appendedWhenAbsent_def
proof (intro allI impI)
  fix i
  assume i: "i < length (a @ b)"
  show "inherited ((a @ b) ! i) \<and> extractInfo (own @ take i (a @ b)) (name ((a @ b) ! i)) = None"
  proof (cases "i < length a")
    case True
    then show ?thesis using assms(1) by (simp add: appendedWhenAbsent_def nth_append)
  next
    case False
    then have j: "i - length a < length b" using i by simp
    from assms(2) j have "inherited (b ! (i - length a))
        \<and> extractInfo ((own @ a) @ take (i - length a) b) (name (b ! (i - length a))) = None"
      unfolding appendedWhenAbsent_def by blast
    then show ?thesis using False by (simp add: nth_append)
  qed
qed

lemma appendedWhenAbsent_single:
  assumes "inherited p" and "extractInfo own (name p) = None"
  shows "appendedWhenAbsent own [p]"
  using assms by (simp add: appendedWhenAbsent_def)

lemma inheritProperties_appends:
  "\<exists>added. inheritProperties own base = own @ added \<and> appendedWhenAbsent own added"
proof (induction base arbitrary: own)
  case Nil
  then show ?case by simp
next
  case (Cons property rest)
  show ?case
  proof (cases "extractInfo own (name property) \<noteq> None")
    case True
    then show ?thesis using Cons.IH [of own] by simp
  next
    case False
    let ?p = "markInherited (newCodeInfo property)"
    from Cons.IH [of "own @ [?p]"] obtain added where
      a: "inheritProperties (own @ [?p]) rest = (own @ [?p]) @ added"
         "appendedWhenAbsent (own @ [?p]) added" by blast
    have "appendedWhenAbsent own [?p]"
      using False by (intro appendedWhenAbsent_single) (simp_all add: newCodeInfo_same_fields)
    then have "appendedWhenAbsent own ([?p] @ added)"
      using a(2) by (rule appendedWhenAbsent_append)
    then show ?thesis using False a(1) by auto
  qed
qed

lemma extendWith_appends:
  "\<exists>added. extendWith own resolvedInfo = own @ added \<and> appendedWhenAbsent own added"
  using inheritProperties_appends [of own "properties resolvedInfo"]
  by (auto simp: extendWith_def)

lemma extendAll_appends:
  "\<exists>added. snd (extendAll resolve todo own) = own @ added \<and> appendedWhenAbsent own added"
proof (induction todo arbitrary: own)
  case Nil
  then show ?case by simp
next
  case (Cons extendType rest)
  show ?case
  proof (cases "resolve extendType")
    case OutOfFuel
    then show ?thesis by simp
  next
    case Threw
    then show ?thesis by simp
  next
    case (Returned ro)
    show ?thesis
    proof (cases ro)
      case None
      then show ?thesis using Returned by simp
    next
      case (Some r)
      from extendWith_appends [of own "r_resolvedInfo r"] obtain a where
        a: "extendWith own (r_resolvedInfo r) = own @ a" "appendedWhenAbsent own a" by blast
      from Cons.IH [of "own @ a"] obtain b where
        b: "snd (extendAll resolve rest (own @ a)) = (own @ a) @ b"
           "appendedWhenAbsent (own @ a) b" by blast
      have "appendedWhenAbsent own (a @ b)"
        using a(2) b(2) by (rule appendedWhenAbsent_append)
      then show ?thesis using Returned Some a(1) b(1) by auto
    qed
  qed
qed

lemma extractInfo_None_iff:
  "extractInfo arr nm = None \<longleftrightarrow>
     filter (\<lambda>info. kind info \<in> {Class, Function, Interface, Property, Variable}
               \<and> name info = nm) arr = []"
  by (simp add: extractInfo_def Let_def)

lemma appended_names_absent:
  assumes "appendedWhenAbsent own added"
      and "l \<in> set own" and "kind l \<in> {Class, Function, Interface, Property, Variable}"
  shows "filter (\<lambda>p. name p = name l) added = []"
proof -
  have "name p \<noteq> name l" if "p \<in> set added" for p
  proof
    assume eq: "name p = name l"
    from that obtain i where i: "i < length added" "added ! i = p"
      by (auto simp: in_set_conv_nth)
    with assms(1) have "extractInfo (own @ take i added) (name p) = None"
      by (auto simp: appendedWhenAbsent_def)
    then have "filter (\<lambda>info. kind info \<in> {Class, Function, Interface, Property, Variable}
                      \<and> name info = name p) (own @ take i added) = []"
      by (simp only: extractInfo_None_iff)
    moreover have "l \<in> set (filter (\<lambda>info. kind info \<in> {Class, Function, Interface, Property, Variable}
                      \<and> name info = name p) (own @ take i added))"
      using assms(2,3) eq by simp
    ultimately show False by (metis empty_iff list.set(1))
  qed
  then show ?thesis by (simp add: filter_empty_conv)
qed

text \<open>
  C5.  Let the class or interface record declare exactly one property named \<open>foo\<close> (a record
  of one of the named kinds, as every classified member is).  After \<open>autoExtendInfo\<close>, however
  it ends and whatever its bases declare, the property list still has exactly one record named
  \<open>foo\<close>, the local one, unchanged (so with its \<open>inherited\<close> flag as it was: unset).  The list
  is the local list followed by the appended members; each appended member is marked
  \<open>inherited\<close> and was appended when no record of its name was present before it, so the
  local members win, and the first inherited occurrence wins over later ones.
\<close>

theorem autoExtendInfo_local_property_wins:
  assumes "autoExtendInfo fuel e sourceInfo infoToExtend = (result, extended)"
      and "filter (\<lambda>p. name p = Some foo) (properties infoToExtend) = [localFoo]"
      and "kind localFoo \<in> {Class, Function, Interface, Property, Variable}"
  shows "filter (\<lambda>p. name p = Some foo) (properties extended) = [localFoo]
       \<and> (\<exists>added. properties extended = properties infoToExtend @ added
             \<and> appendedWhenAbsent (properties infoToExtend) added)"
proof -
  let ?resolve = "\<lambda>extendType. fst (resolveType fuel e sourceInfo extendType Map.empty)"
  let ?own = "properties infoToExtend"
  have ext: "properties extended = snd (extendAll ?resolve (extendsToDo e infoToExtend) ?own)"
    using assms(1) by (auto simp: autoExtendInfo_def split: prod.splits)
  from extendAll_appends [of ?resolve "extendsToDo e infoToExtend" ?own] obtain added where
    a: "properties extended = ?own @ added" "appendedWhenAbsent ?own added"
    using ext by auto
  have "localFoo \<in> set (filter (\<lambda>p. name p = Some foo) ?own)" using assms(2) by simp
  then have l: "localFoo \<in> set ?own" "name localFoo = Some foo" by simp_all
  from appended_names_absent [OF a(2) l(1) assms(3)]
  have "filter (\<lambda>p. name p = Some foo) added = []" using l(2) by simp
  then have "filter (\<lambda>p. name p = Some foo) (properties extended) = [localFoo]"
    using a(1) assms(2) by simp
  then show ?thesis using a by blast
qed

theorem autoExtendInfo_local_property_wins_witness:
  "autoExtendInfo 1 (projectEnv [])
      \<lparr>path = ''/src/main.ts'',
       code = [interfaceInfo ''Base'' None [propertyInfo ''foo'', propertyInfo ''bar'', propertyInfo ''bar''],
               interfaceInfo ''Child'' (Some (ExtendsArray [''Base''])) [propertyInfo ''foo'']]\<rparr>
      (interfaceInfo ''Child'' (Some (ExtendsArray [''Base''])) [propertyInfo ''foo''])
     = (Returned None,
        interfaceInfo ''Child'' (Some (ExtendsArray [''Base'']))
          [propertyInfo ''foo'', markInherited (propertyInfo ''bar'')])
   \<and> filter (\<lambda>p. name p = Some ''foo'')
        (properties (interfaceInfo ''Child'' (Some (ExtendsArray [''Base'']))
          [propertyInfo ''foo'', markInherited (propertyInfo ''bar'')]))
     = [propertyInfo ''foo'']
   \<and> inherited (propertyInfo ''foo'') = False"
proof -
  have run: "autoExtendInfo 1 (projectEnv [])
      \<lparr>path = ''/src/main.ts'',
       code = [interfaceInfo ''Base'' None [propertyInfo ''foo'', propertyInfo ''bar'', propertyInfo ''bar''],
               interfaceInfo ''Child'' (Some (ExtendsArray [''Base''])) [propertyInfo ''foo'']]\<rparr>
      (interfaceInfo ''Child'' (Some (ExtendsArray [''Base''])) [propertyInfo ''foo''])
     = (Returned None,
        interfaceInfo ''Child'' (Some (ExtendsArray [''Base'']))
          [propertyInfo ''foo'', markInherited (propertyInfo ''bar'')])"
    by (simp add: autoExtendInfo_def extendsToDo_def extractTypes_def isNativeType_def
          isCapitalCase_def NATIVE_TYPES_def NATIVE_HELPER_def pushNew_def isWordChar_def
          extendWith_def extractInfo_def fixture_defs)
  have one: "filter (\<lambda>p. name p = Some ''foo'')
        (properties (interfaceInfo ''Child'' (Some (ExtendsArray [''Base''])) [propertyInfo ''foo'']))
      = [propertyInfo ''foo'']"
    by (simp add: fixture_defs)
  have k: "kind (propertyInfo ''foo'') \<in> {Class, Function, Interface, Property, Variable}"
    by (simp add: fixture_defs)
  from autoExtendInfo_local_property_wins [OF run one k] run show ?thesis
    by (simp add: fixture_defs)
qed

subsection \<open>Unresolved bases\<close>

lemma extendAll_resolved_prefix:
  assumes "map resolve before = map (\<lambda>r. Returned (Some r)) rs"
  shows "extendAll resolve (before @ rest) own
           = extendAll resolve rest (foldl extendWith own (map r_resolvedInfo rs))"
  using assms
proof (induction before arbitrary: rs own)
  case Nil
  then show ?case by simp
next
  case (Cons t before)
  then obtain r rs' where rs: "rs = r # rs'" by (cases rs) auto
  then have "resolve t = Returned (Some r)" "map resolve before = map (\<lambda>r. Returned (Some r)) rs'"
    using Cons.prems by simp_all
  then show ?case using Cons.IH [of rs' "extendWith own (r_resolvedInfo r)"] rs by simp
qed

text \<open>
  C6, as the code has it, for bases other than the record itself.  \<open>autoExtendInfo\<close> stops
  at the first extracted base-type identifier that fails to resolve and returns \<open>undefined\<close>;
  the members inherited from the bases resolved before it stay appended to the property list
  of the record (the extension is done in place and is not undone), and the identifiers after
  it are not looked at.  When every candidate
  resolves, the property list of the record has been extended, in place, with the members of
  every base in turn.
\<close>

theorem autoExtendInfo_stops_at_first_unresolved:
  "(extendsToDo e infoToExtend = before @ failed # todo
      \<and> map (\<lambda>t. fst (resolveType fuel e sourceInfo t Map.empty)) before
            = map (\<lambda>r. Returned (Some r)) rs
      \<and> fst (resolveType fuel e sourceInfo failed Map.empty) = Returned None
      \<and> infoToExtend \<notin> set (map r_resolvedInfo rs)
    \<longrightarrow> autoExtendInfo fuel e sourceInfo infoToExtend
          = (Returned None,
             withProperties infoToExtend
               (foldl extendWith (properties infoToExtend) (map r_resolvedInfo rs))))
   \<and> (map (\<lambda>t. fst (resolveType fuel e sourceInfo t Map.empty)) (extendsToDo e infoToExtend)
            = map (\<lambda>r. Returned (Some r)) rs
      \<and> infoToExtend \<notin> set (map r_resolvedInfo rs)
    \<longrightarrow> snd (autoExtendInfo fuel e sourceInfo infoToExtend)
          = withProperties infoToExtend
              (foldl extendWith (properties infoToExtend) (map r_resolvedInfo rs)))"
proof (intro conjI impI)
  let ?resolve = "\<lambda>t. fst (resolveType fuel e sourceInfo t Map.empty)"
  assume a: "extendsToDo e infoToExtend = before @ failed # todo
      \<and> map ?resolve before = map (\<lambda>r. Returned (Some r)) rs
      \<and> ?resolve failed = Returned None
      \<and> infoToExtend \<notin> set (map r_resolvedInfo rs)"
  then have "extendAll ?resolve (before @ failed # todo) (properties infoToExtend)
        = extendAll ?resolve (failed # todo)
            (foldl extendWith (properties infoToExtend) (map r_resolvedInfo rs))"
    by (intro extendAll_resolved_prefix) simp
  also have "\<dots> = (Returned None, foldl extendWith (properties infoToExtend) (map r_resolvedInfo rs))"
    using a by simp
  finally show "autoExtendInfo fuel e sourceInfo infoToExtend
          = (Returned None,
             withProperties infoToExtend
               (foldl extendWith (properties infoToExtend) (map r_resolvedInfo rs)))"
    using a by (simp add: autoExtendInfo_def)
next
  let ?resolve = "\<lambda>t. fst (resolveType fuel e sourceInfo t Map.empty)"
  assume "map ?resolve (extendsToDo e infoToExtend) = map (\<lambda>r. Returned (Some r)) rs
      \<and> infoToExtend \<notin> set (map r_resolvedInfo rs)"
  then have a: "map ?resolve (extendsToDo e infoToExtend) = map (\<lambda>r. Returned (Some r)) rs"
    by simp
  from extendAll_resolved_prefix [OF a, of "[]" "properties infoToExtend"]
  have "extendAll ?resolve (extendsToDo e infoToExtend) (properties infoToExtend)
        = (Returned None, foldl extendWith (properties infoToExtend) (map r_resolvedInfo rs))"
    by simp
  then show "snd (autoExtendInfo fuel e sourceInfo infoToExtend)
          = withProperties infoToExtend
              (foldl extendWith (properties infoToExtend) (map r_resolvedInfo rs))"
    by (simp add: autoExtendInfo_def)
qed

lemmas flatten_defs = autoExtendInfo_def extendsToDo_def extractTypes_def isNativeType_def
  isCapitalCase_def NATIVE_TYPES_def NATIVE_HELPER_def pushNew_def isWordChar_def
  extendWith_def extractInfo_def

theorem autoExtendInfo_stops_at_first_unresolved_witness:
  "autoExtendInfo 1 (projectEnv [])
      \<lparr>path = ''/src/main.ts'',
       code = [interfaceInfo ''Base'' None [propertyInfo ''x''],
               interfaceInfo ''Other'' None [propertyInfo ''z'']]\<rparr>
      (interfaceInfo ''Child'' (Some (ExtendsArray [''Base'', ''Missing'', ''Other'']))
         [propertyInfo ''y''])
     = (Returned None,
        interfaceInfo ''Child'' (Some (ExtendsArray [''Base'', ''Missing'', ''Other'']))
          [propertyInfo ''y'', markInherited (propertyInfo ''x'')])
   \<and> snd (autoExtendInfo 1 (projectEnv [])
      \<lparr>path = ''/src/main.ts'',
       code = [interfaceInfo ''Base'' None [propertyInfo ''x''],
               interfaceInfo ''Other'' None [propertyInfo ''z'']]\<rparr>
      (interfaceInfo ''Child'' (Some (ExtendsArray [''Base'', ''Other''])) [propertyInfo ''y'']))
     = interfaceInfo ''Child'' (Some (ExtendsArray [''Base'', ''Other'']))
          [propertyInfo ''y'', markInherited (propertyInfo ''x''), markInherited (propertyInfo ''z'')]"
proof
  let ?src = "\<lparr>path = ''/src/main.ts'',
       code = [interfaceInfo ''Base'' None [propertyInfo ''x''],
               interfaceInfo ''Other'' None [propertyInfo ''z'']]\<rparr>"
  show "autoExtendInfo 1 (projectEnv []) ?src
      (interfaceInfo ''Child'' (Some (ExtendsArray [''Base'', ''Missing'', ''Other'']))
         [propertyInfo ''y''])
     = (Returned None,
        interfaceInfo ''Child'' (Some (ExtendsArray [''Base'', ''Missing'', ''Other'']))
          [propertyInfo ''y'', markInherited (propertyInfo ''x'')])"
    using autoExtendInfo_stops_at_first_unresolved
      [where e = "projectEnv []" and fuel = 1 and sourceInfo = ?src
        and infoToExtend = "interfaceInfo ''Child''
              (Some (ExtendsArray [''Base'', ''Missing'', ''Other''])) [propertyInfo ''y'']"
        and before = "[''Base'']" and failed = "''Missing''" and todo = "[''Other'']"
        and rs = "[Resolved ''/src/main.ts'' (interfaceInfo ''Base'' None [propertyInfo ''x''])
                     ''/src/main.ts'' ''Base'']", THEN conjunct1, THEN mp]
    by (simp add: flatten_defs fixture_defs)
  show "snd (autoExtendInfo 1 (projectEnv []) ?src
      (interfaceInfo ''Child'' (Some (ExtendsArray [''Base'', ''Other''])) [propertyInfo ''y'']))
     = interfaceInfo ''Child'' (Some (ExtendsArray [''Base'', ''Other'']))
          [propertyInfo ''y'', markInherited (propertyInfo ''x''), markInherited (propertyInfo ''z'')]"
    using autoExtendInfo_stops_at_first_unresolved
      [where e = "projectEnv []" and fuel = 1 and sourceInfo = ?src
        and infoToExtend = "interfaceInfo ''Child''
              (Some (ExtendsArray [''Base'', ''Other''])) [propertyInfo ''y'']"
        and rs = "[Resolved ''/src/main.ts'' (interfaceInfo ''Base'' None [propertyInfo ''x''])
                     ''/src/main.ts'' ''Base'',
                   Resolved ''/src/main.ts'' (interfaceInfo ''Other'' None [propertyInfo ''z''])
                     ''/src/main.ts'' ''Other'']", THEN conjunct2, THEN mp]
    by (simp add: flatten_defs fixture_defs)
qed

text \<open>
  The claim as stated fails: of the candidates \<open>Base\<close> and \<open>Missing\<close> the second does not
  resolve, \<open>autoExtendInfo\<close> returns \<open>undefined\<close>, and the member \<open>x\<close> inherited from \<open>Base\<close>
  is in the property list of the record all the same: inheritance has been applied in part.
\<close>

theorem autoExtendInfo_partially_applied:
  "fst (resolveType 1 (projectEnv [])
          \<lparr>path = ''/src/main.ts'', code = [interfaceInfo ''Base'' None [propertyInfo ''x'']]\<rparr>
          ''Missing'' Map.empty)
     = Returned None
   \<and> autoExtendInfo 1 (projectEnv [])
      \<lparr>path = ''/src/main.ts'', code = [interfaceInfo ''Base'' None [propertyInfo ''x'']]\<rparr>
      (interfaceInfo ''Child'' (Some (ExtendsArray [''Base'', ''Missing''])) [propertyInfo ''y''])
     = (Returned None,
        interfaceInfo ''Child'' (Some (ExtendsArray [''Base'', ''Missing'']))
          [propertyInfo ''y'', Info Property (Some ''x'') None [] None [] None True None []])"
  by (simp add: flatten_defs fixture_defs)

section \<open>Properties of the import classifier\<close>

text \<open>
  C7, as the code has it.  The declaration \<open>import { Foo as Bar } from './other.js'\<close>
  classifies to the import record whose \<open>from\<close> is \<open>./other.js\<close> (the quotes are stripped,
  the extension stays; the resolver drops it when it computes the path) and whose \<open>imports\<close>
  object is \<open>{Foo: 'Bar'}\<close>.  Resolving \<open>Bar\<close> in the importing file follows the record to
  the file \<open>other.ts\<close> beside it and returns the declaration of \<open>Foo\<close> there.
\<close>

theorem getImportInfo_renamed_import:
  "getImportInfo (ImportDeclaration ([CHR 0x27] @ ''./other.js'' @ [CHR 0x27])
                    (Some [NamedImports [ImportSpecifier (Some ''Foo'') ''Bar'']]))
     = Some (Info Import None None [] (Some [(''Foo'', ''Bar'')]) ''./other.js'' None False None [])
   \<and> fst (resolveType 2 (projectEnv [(''/src/other.ts'', [classInfo ''Foo'' None []])])
          \<lparr>path = ''/src/main.ts'',
           code = [Info Import None None [] (Some [(''Foo'', ''Bar'')]) ''./other.js'' None False None []]\<rparr>
          ''Bar'' Map.empty)
     = Returned (Some (Resolved ''/src/main.ts'' (classInfo ''Foo'' None []) ''/src/other.ts'' ''Bar''))"
  by (simp add: getImportInfo_def sanitizeText_def quoteChars_def fixture_defs numeral_2_eq_2)

text \<open>
  The claim as stated fails: the \<open>from\<close> of the record is not \<open>./other\<close>.
\<close>

theorem getImportInfo_from_keeps_extension:
  "map_option from' (getImportInfo (ImportDeclaration ([CHR 0x27] @ ''./other.js'' @ [CHR 0x27])
                       (Some [NamedImports [ImportSpecifier (Some ''Foo'') ''Bar'']])))
     \<noteq> Some ''./other''"
  by (simp add: getImportInfo_def sanitizeText_def quoteChars_def)

section \<open>Properties of the doclet parser\<close>

lemmas doclet_defs = getDocletInfosBetween_def newDocletInfo_def tagTextOf_def trim_def
  isWhiteSpace_def substringFrom_drop

text \<open>
  C8, as the code has it.  The block
  \<open>/** Does a thing.\n * @param {number} a - value\n * @return {number} result */\<close> is found
  as one doclet block.  For it the parser yields the comment \<open>Does a thing.\<close> and the two
  tags with their source text, which reaches up to the next tag or the end of the comment.  The
  record built from them has the tags \<open>description: ["Does a thing."]\<close>,
  \<open>param: ["{number} a - value"]\<close> and \<open>return: ["{number} result"]\<close>: for every tag the
  text behind the tag name, the gutter asterisks undone and the result trimmed; the type in
  braces is part of that text, for \<open>@return\<close> as for \<open>@param\<close>.
\<close>

theorem getDocletInfosBetween_scenario:
  "matchDoclets None 0
     (''/** Does a thing.'' @ [CHR 0x0A] @ '' * @param {number} a - value'' @ [CHR 0x0A]
        @ '' * @return {number} result */'')
     = [''/** Does a thing.'' @ [CHR 0x0A] @ '' * @param {number} a - value'' @ [CHR 0x0A]
        @ '' * @return {number} result */'']
   \<and> getDocletInfosBetween
       [[JSDoc (Some (CommentText ''Does a thing.''))
           (Some [\<lparr>tagName = ''param'',
                   tagText = ''@param {number} a - value'' @ [CHR 0x0A] @ '' * ''\<rparr>,
                  \<lparr>tagName = ''return'', tagText = ''@return {number} result ''\<rparr>])]]
     = [Info Doclet None None [] None [] None False None
          [(''description'', [''Does a thing.'']),
           (''param'', [''{number} a - value'']),
           (''return'', [''{number} result''])]]"
  by (simp add: doclet_defs)

text \<open>
  The claim as stated fails: the text stored for \<open>return\<close> is not \<open>result\<close>.
\<close>

theorem getDocletInfosBetween_return_keeps_type:
  "map tags (getDocletInfosBetween
       [[JSDoc (Some (CommentText ''Does a thing.''))
           (Some [\<lparr>tagName = ''param'',
                   tagText = ''@param {number} a - value'' @ [CHR 0x0A] @ '' * ''\<rparr>,
                  \<lparr>tagName = ''return'', tagText = ''@return {number} result ''\<rparr>])]])
     \<noteq> [[(''description'', [''Does a thing.'']),
          (''param'', [''{number} a - value'']),
          (''return'', [''result''])]]"
  by (simp add: doclet_defs)

section \<open>Copies and the tag map\<close>

lemmas store_defs = baseStore_def copiedStore_def entriesOf_def fieldOf_def setField_def
  truthy_def addTag_store_def tagsOf_def textsOf_def

text \<open>
  C9 against the code.  \<open>newCodeInfo\<close> copies the property \<open>x\<close> of the base interface, as
  \<open>autoExtendInfo\<close> does; the copy and the doclet of the copy are new objects, and the
  \<open>tags\<close> field of the new doclet holds the reference of the original tag map, which has no
  \<open>kind\<close> and is therefore taken over as it is.  After \<open>property.inherited = true\<close>, adding
  a tag to the doclet of the copy changes the tags read through the original record.
\<close>

theorem newCodeInfo_shares_tag_map:
  "newCodeInfo_store 3 baseStore 0 = Returned (4, copiedStore)
   \<and> fieldOf copiedStore 0 ''doclet'' = Ref 1
   \<and> fieldOf copiedStore 4 ''doclet'' = Ref 5
   \<and> fieldOf copiedStore 1 ''tags'' = Ref 2
   \<and> fieldOf copiedStore 5 ''tags'' = Ref 2
   \<and> tagsOf copiedStore 1 = [(''description'', [''d''])]
   \<and> map_outcome (\<lambda>s. tagsOf s 1)
        (addTag_store (setField copiedStore 4 ''inherited'' (Bool True)) 5 ''since'' ''1.0'')
     = Returned [(''description'', [''d'']), (''since'', [''1.0''])]"
  by (simp add: store_defs numeral_3_eq_3 eval_nat_numeral)

end
